theory Spec2Isabelle
  imports Main
begin

section \<open>Picture-list import: data model\<close>

text \<open>
  The development embeds the two scripts of the repository,
  \<^verbatim>\<open>src/PictureList_Import.jsx\<close> (the current script, which builds the row-to-layer map
  eagerly in \<^verbatim>\<open>mapTextLayers\<close>) and \<^verbatim>\<open>src/unnamed/part_000\<close> (the earlier script, which
  builds the map lazily inside \<^verbatim>\<open>generateLocalizedFiles\<close>). Definitions of the earlier
  script carry the suffix \<open>_lazy\<close> where the names coincide.

  A JavaScript string is a sequence of code units; it is modelled as a \<^typ>\<open>string\<close>,
  one \<^typ>\<open>char\<close> per code unit (so the model covers the code units below 256).

  A worksheet row is the object \<^verbatim>\<open>sheet_to_json\<close> yields: a finite map from column
  (language) name to cell text. Reading a column the row does not have yields
  \<^verbatim>\<open>undefined\<close>, modelled as \<^const>\<open>None\<close>.

  A document is represented by the texts of its text-bearing layers or frames, in the
  order in which \<^verbatim>\<open>getDocumentTextLayers\<close> enumerates them; \<^verbatim>\<open>getLayerText\<close> reads the
  text at an index. The file system is a store from full path to the document saved
  there. Two paths name the same file exactly when they are the same string, and the
  only failure of the host that is modelled is opening a file that does not exist.
\<close>

type_synonym row = "string \<rightharpoonup> string"
type_synonym document = "string list"
type_synonym filesystem = "string \<rightharpoonup> document"

record fileref =
  path :: string
  name :: string

record languages =
  source :: string
  target :: "string list"

datatype error =
  TypeError     \<comment> \<open>a property of \<^verbatim>\<open>undefined\<close> is read or written\<close>
| IOError       \<comment> \<open>\<^verbatim>\<open>app.open\<close> on a file that does not exist\<close>
| HostError     \<comment> \<open>the host application rejects the value assigned to a text property\<close>

definition fullName :: "fileref \<Rightarrow> string" where
  "fullName f = path f @ ''/'' @ name f"

section \<open>Target file names\<close>

text \<open>\<^verbatim>\<open>String.prototype.split\<close> with a one-character separator: the result always has at
  least one component.\<close>

fun split :: "char \<Rightarrow> string \<Rightarrow> string list" where
  "split sep [] = [[]]"
| "split sep (c # cs) =
     (if c = sep then [] # split sep cs
      else (case split sep cs of
              [] \<Rightarrow> [[c]]
            | w # ws \<Rightarrow> (c # w) # ws))"

text \<open>\<^verbatim>\<open>Array.prototype.join\<close>.\<close>

fun join :: "string \<Rightarrow> string list \<Rightarrow> string" where
  "join sep [] = []"
| "join sep [w] = w"
| "join sep (w # v # ws) = w @ sep @ join sep (v # ws)"

text \<open>
  \<^verbatim>\<open>
  function generateTargetFilename(sourceName, targetLang) {
    var nameComponents = sourceName.split(".");
    nameComponents[Math.max(0, nameComponents.length - 2)] += "_" + targetLang;
    return nameComponents.join(".");
  }
  \<close>
  The index is computed over the integers, as \<^verbatim>\<open>Math.max\<close> does. It is always inside the
  array (lemma \<open>generateTargetFilename_index_in_range\<close>), so the assignment never extends
  the array and \<open>list_update\<close> is what the script does.
\<close>

definition generateTargetFilename :: "string \<Rightarrow> string \<Rightarrow> string" where
  "generateTargetFilename sourceName targetLang =
     (let nameComponents = split CHR ''.'' sourceName;
          k = nat (max 0 (int (length nameComponents) - 2));
          nameComponents = nameComponents[k := nameComponents ! k @ ''_'' @ targetLang]
      in join ''.'' nameComponents)"

section \<open>The matcher of \<^verbatim>\<open>PictureList_Import.jsx\<close>\<close>

text \<open>
  \<^verbatim>\<open>const WHITESPACE_REGEX = /\s/g;\<close>
  The class \<^verbatim>\<open>\s\<close> on the code units below 256: tab, line feed, vertical tab, form feed,
  carriage return, space and no-break space. \<^verbatim>\<open>text.replace(WHITESPACE_REGEX, "")\<close> deletes
  every code unit of the class.
\<close>

definition WHITESPACE_REGEX :: "char \<Rightarrow> bool" where
  "WHITESPACE_REGEX c = ((of_char c :: nat) \<in> {9, 10, 11, 12, 13, 32, 160})"

definition replace_WHITESPACE :: "string \<Rightarrow> string" where
  "replace_WHITESPACE text = filter (\<lambda>c. \<not> WHITESPACE_REGEX c) text"

text \<open>\<^verbatim>\<open>array.splice(i, 1)\<close>: removes the element at \<open>i\<close>, and nothing when \<open>i\<close> is outside
  the array.\<close>

definition splice_at :: "'a list \<Rightarrow> nat \<Rightarrow> 'a list" where
  "splice_at xs i = take i xs @ drop (Suc i) xs"

text \<open>
  \<^verbatim>\<open>
  function findMatchingTextLayer(layerTextStrings, layerIndices, searchText) {
    if (layerIndices.length > 0) {
      for (var i = 0; i < layerIndices.length; ++i) {
        if (layerTextStrings[i] === searchText) {
          var matchIndex = layerIndices[i];
          layerTextStrings.splice(i, 1);
          layerIndices.splice(i, 1);
          return matchIndex;
        }
      }
    }
    return -1;
  }
  \<close>
  The two arrays are mutated in place; the model returns them after the match index.
  Reading \<^verbatim>\<open>layerTextStrings[i]\<close> outside the array gives \<^verbatim>\<open>undefined\<close>, which is not
  \<^verbatim>\<open>===\<close> to a string.
\<close>

function findMatchingTextLayer_loop ::
  "string list \<Rightarrow> int list \<Rightarrow> string \<Rightarrow> nat \<Rightarrow> int \<times> string list \<times> int list" where
  "findMatchingTextLayer_loop layerTextStrings layerIndices searchText i =
     (if i < length layerIndices then
        (if i < length layerTextStrings \<and> layerTextStrings ! i = searchText then
           (layerIndices ! i, splice_at layerTextStrings i, splice_at layerIndices i)
         else findMatchingTextLayer_loop layerTextStrings layerIndices searchText (Suc i))
      else (- 1, layerTextStrings, layerIndices))"
  by pat_completeness auto
termination
  by (relation "measure (\<lambda>(ts, ixs, s, i). length ixs - i)") auto

declare findMatchingTextLayer_loop.simps [simp del]

definition findMatchingTextLayer ::
  "string list \<Rightarrow> int list \<Rightarrow> string \<Rightarrow> int \<times> string list \<times> int list" where
  "findMatchingTextLayer layerTextStrings layerIndices searchText =
     (if length layerIndices > 0 then
        findMatchingTextLayer_loop layerTextStrings layerIndices searchText 0
      else (- 1, layerTextStrings, layerIndices))"

text \<open>
  The row loop of \<^verbatim>\<open>mapTextLayers\<close> (lines 300 to 309):
  \<^verbatim>\<open>
  for (var dataRow = 0; dataRow < worksheetData.length; ++dataRow) {
    var trimmedSourceText = worksheetData[dataRow][sourceLang].replace(WHITESPACE_REGEX, "");
    var layerMatchIndex = findMatchingTextLayer(layerTextStrings, layerIndices, trimmedSourceText)
    textLayerMap.push(layerMatchIndex);
    if (layerMatchIndex === -1) {
      missingText.push(worksheetData[dataRow][sourceLang]);
    }
  }
  \<close>
  A row without a cell in the source-language column makes \<^verbatim>\<open>.replace\<close> throw.
\<close>

fun mapTextLayers_rows ::
  "row list \<Rightarrow> string \<Rightarrow> string list \<Rightarrow> int list \<Rightarrow> int list \<Rightarrow> string list
     \<Rightarrow> error + int list \<times> string list" where
  "mapTextLayers_rows [] sourceLang layerTextStrings layerIndices textLayerMap missingText =
     Inr (textLayerMap, missingText)"
| "mapTextLayers_rows (row # rows) sourceLang layerTextStrings layerIndices textLayerMap missingText =
     (case row sourceLang of
        None \<Rightarrow> Inl TypeError
      | Some sourceText \<Rightarrow>
          (case findMatchingTextLayer layerTextStrings layerIndices (replace_WHITESPACE sourceText) of
             (layerMatchIndex, layerTextStrings', layerIndices') \<Rightarrow>
               mapTextLayers_rows rows sourceLang layerTextStrings' layerIndices'
                 (textLayerMap @ [layerMatchIndex])
                 (if layerMatchIndex = - 1 then missingText @ [sourceText] else missingText)))"

text \<open>
  The matching part of \<^verbatim>\<open>mapTextLayers\<close> (lines 292 to 309), on the texts of the source
  document's layers: the pool of candidates (the layer indices and the layer texts
  without whitespace), then the row loop. It yields the \<^verbatim>\<open>textLayerMap\<close> and the
  \<^verbatim>\<open>missingText\<close> list.
\<close>

definition mapTextLayers_match ::
  "document \<Rightarrow> row list \<Rightarrow> string \<Rightarrow> error + int list \<times> string list" where
  "mapTextLayers_match textLayers worksheetData sourceLang =
     (let layerIndices = map int [0..<length textLayers];
          layerTextStrings = map replace_WHITESPACE textLayers
      in mapTextLayers_rows worksheetData sourceLang layerTextStrings layerIndices [] [])"

text \<open>
  \<^verbatim>\<open>app.open\<close> reads the document saved at a path; the document is then held in memory and
  reaches the store again only through \<^verbatim>\<open>save\<close>. \<^verbatim>\<open>File.copy\<close> returns false, and copies
  nothing, when the source does not exist.
\<close>

definition app_open :: "filesystem \<Rightarrow> string \<Rightarrow> error + document" where
  "app_open fs f = (case fs f of None \<Rightarrow> Inl IOError | Some doc \<Rightarrow> Inr doc)"

definition file_copy :: "filesystem \<Rightarrow> string \<Rightarrow> string \<Rightarrow> filesystem" where
  "file_copy fs src dst = (case fs src of None \<Rightarrow> fs | Some doc \<Rightarrow> fs(dst \<mapsto> doc))"

definition doc_save :: "filesystem \<Rightarrow> string \<Rightarrow> document \<Rightarrow> filesystem" where
  "doc_save fs f doc = fs(f \<mapsto> doc)"

text \<open>
  \<^verbatim>\<open>mapTextLayers(ccFile, worksheetData, sourceLang)\<close>: opens the source document, reads the
  layer texts, closes the document without saving, matches, and asks the user to confirm
  when rows are missing. The user's answer is the parameter \<open>confirm\<close>; \<^const>\<open>None\<close> is
  the \<^verbatim>\<open>null\<close> returned when the user declines. The store is only read.
\<close>

definition mapTextLayers ::
  "filesystem \<Rightarrow> (string list \<Rightarrow> bool) \<Rightarrow> fileref \<Rightarrow> row list \<Rightarrow> string
     \<Rightarrow> error + int list option" where
  "mapTextLayers fs confirm ccFile worksheetData sourceLang =
     (case app_open fs (fullName ccFile) of
        Inl e \<Rightarrow> Inl e
      | Inr textLayers \<Rightarrow>
          (case mapTextLayers_match textLayers worksheetData sourceLang of
             Inl e \<Rightarrow> Inl e
           | Inr (textLayerMap, missingText) \<Rightarrow>
               if length missingText > 0 \<and> \<not> confirm missingText then Inr None
               else Inr (Some textLayerMap)))"

section \<open>The variant generator of \<^verbatim>\<open>PictureList_Import.jsx\<close>\<close>

text \<open>
  \<^verbatim>\<open>setLayerText(textLayers[layerIndex], newText)\<close>. An index outside the array reads
  \<^verbatim>\<open>undefined\<close>, and \<^verbatim>\<open>setLayerText\<close> then throws on \<^verbatim>\<open>layer.contents\<close> (or
  \<^verbatim>\<open>layer.textItem\<close>); the collection \<^verbatim>\<open>document.textFrames\<close> of the other two hosts is
  taken to behave as the array does. What the host application does when \<^verbatim>\<open>undefined\<close> (a missing cell) is
  assigned to a text property is not in the script: it is the parameter \<open>hostUndefined\<close>,
  either the error the host raises or the text the layer then holds.
\<close>

definition setLayerText ::
  "error + string \<Rightarrow> document \<Rightarrow> int \<Rightarrow> string option \<Rightarrow> error + document" where
  "setLayerText hostUndefined textLayers layerIndex newText =
     (if 0 \<le> layerIndex \<and> layerIndex < int (length textLayers) then
        (case newText of
           Some text \<Rightarrow> Inr (textLayers[nat layerIndex := text])
         | None \<Rightarrow>
             (case hostUndefined of
                Inl e \<Rightarrow> Inl e
              | Inr text \<Rightarrow> Inr (textLayers[nat layerIndex := text])))
      else Inl TypeError)"

text \<open>
  The row loop of \<^verbatim>\<open>generateLocalizedFiles\<close> (lines 337 to 342):
  \<^verbatim>\<open>
  for (var dataRow = 0; dataRow < worksheetData.length; ++dataRow) {
    var layerIndex = textLayerMap[dataRow];
    if (layerIndex !== -1) {
      setLayerText(textLayers[layerIndex], worksheetData[dataRow][currentLang]);
    }
  }
  \<close>
  The rows and the map are read at the same index \<open>dataRow\<close>, so the model walks both
  lists together. Where the map is shorter than the rows, \<^verbatim>\<open>textLayerMap[dataRow]\<close> is
  \<^verbatim>\<open>undefined\<close>, which is \<^verbatim>\<open>!== -1\<close>, and \<^verbatim>\<open>textLayers[undefined]\<close> is \<^verbatim>\<open>undefined\<close>:
  \<^verbatim>\<open>setLayerText\<close> throws.
\<close>

fun generateLocalizedFiles_rows ::
  "error + string \<Rightarrow> row list \<Rightarrow> int list \<Rightarrow> string \<Rightarrow> document \<Rightarrow> error + document" where
  "generateLocalizedFiles_rows hostUndefined [] textLayerMap currentLang textLayers =
     Inr textLayers"
| "generateLocalizedFiles_rows hostUndefined (row # rows) [] currentLang textLayers =
     Inl TypeError"
| "generateLocalizedFiles_rows hostUndefined (row # rows) (layerIndex # textLayerMap)
       currentLang textLayers =
     (if layerIndex \<noteq> - 1 then
        (case setLayerText hostUndefined textLayers layerIndex (row currentLang) of
           Inl e \<Rightarrow> Inl e
         | Inr textLayers' \<Rightarrow>
             generateLocalizedFiles_rows hostUndefined rows textLayerMap currentLang textLayers')
      else generateLocalizedFiles_rows hostUndefined rows textLayerMap currentLang textLayers)"

text \<open>
  The language loop of \<^verbatim>\<open>generateLocalizedFiles\<close> (lines 329 to 346): for each target
  language the source file is copied to the target file, the copy is opened, edited in
  memory, saved and closed. An exception leaves the loop with the store as it is then:
  the variants saved so far, and the current copy as it was copied. The result is the
  error, if any, and the final store.
\<close>

fun generateLocalizedFiles_langs ::
  "error + string \<Rightarrow> filesystem \<Rightarrow> fileref \<Rightarrow> string list \<Rightarrow> row list \<Rightarrow> int list
     \<Rightarrow> error option \<times> filesystem" where
  "generateLocalizedFiles_langs hostUndefined fs ccFile [] worksheetData textLayerMap =
     (None, fs)"
| "generateLocalizedFiles_langs hostUndefined fs ccFile (currentLang # langs)
       worksheetData textLayerMap =
     (let targetFilename = generateTargetFilename (name ccFile) currentLang;
          targetFile = path ccFile @ ''/'' @ targetFilename;
          fs1 = file_copy fs (fullName ccFile) targetFile
      in case app_open fs1 targetFile of
           Inl e \<Rightarrow> (Some e, fs1)
         | Inr textLayers \<Rightarrow>
             (case generateLocalizedFiles_rows hostUndefined worksheetData textLayerMap
                     currentLang textLayers of
                Inl e \<Rightarrow> (Some e, fs1)
              | Inr textLayers' \<Rightarrow>
                  generateLocalizedFiles_langs hostUndefined
                    (doc_save fs1 targetFile textLayers') ccFile langs
                    worksheetData textLayerMap))"

definition generateLocalizedFiles ::
  "error + string \<Rightarrow> filesystem \<Rightarrow> fileref \<Rightarrow> languages \<Rightarrow> row list \<Rightarrow> int list
     \<Rightarrow> error option \<times> filesystem" where
  "generateLocalizedFiles hostUndefined fs ccFile selectedLanguages worksheetData textLayerMap =
     generateLocalizedFiles_langs hostUndefined fs ccFile (target selectedLanguages)
       worksheetData textLayerMap"

text \<open>
  The end of \<^verbatim>\<open>main\<close> (lines 402 to 412), once the dialogs have given the source file, the
  worksheet rows and the selected languages: the map is built, and unless the user
  declined, the variants are generated. An exception of \<^verbatim>\<open>mapTextLayers\<close> is not caught
  and ends the script; one of \<^verbatim>\<open>generateLocalizedFiles\<close> is caught and shown. The result is
  the store the run leaves.
\<close>

definition main_localize ::
  "error + string \<Rightarrow> filesystem \<Rightarrow> (string list \<Rightarrow> bool) \<Rightarrow> fileref \<Rightarrow> languages
     \<Rightarrow> row list \<Rightarrow> filesystem" where
  "main_localize hostUndefined fs confirm ccFile selectedLanguages worksheetData =
     (case mapTextLayers fs confirm ccFile worksheetData (source selectedLanguages) of
        Inl e \<Rightarrow> fs
      | Inr None \<Rightarrow> fs
      | Inr (Some textLayerMap) \<Rightarrow>
          snd (generateLocalizedFiles hostUndefined fs ccFile selectedLanguages
                 worksheetData textLayerMap))"

section \<open>The earlier script \<^verbatim>\<open>part_000\<close>: the map built while the first variant is written\<close>

text \<open>
  \<^verbatim>\<open>
  function findMatchingTextLayer(textLayers, searchText) {
    var whitespaceRegex = /\s/g;
    for (var i = 0; i < textLayers.length; ++i) {
      var layerText = getLayerText(textLayers[i]).replace(whitespaceRegex, "");
      if (getLayerText(textLayers[i]).replace(whitespaceRegex, "") === searchText.replace(whitespaceRegex, "")) {
        return i;
      }
    }
    return -1;
  }
  \<close>
  The layers are those of the open target document, with the texts they hold at the
  time of the call. A missing source cell makes \<^verbatim>\<open>searchText.replace\<close> throw, at the first
  layer compared (so not when the document has no text layer).
\<close>

function findMatchingTextLayer_lazy_loop ::
  "document \<Rightarrow> string option \<Rightarrow> nat \<Rightarrow> error + int" where
  "findMatchingTextLayer_lazy_loop textLayers searchText i =
     (if i < length textLayers then
        (case searchText of
           None \<Rightarrow> Inl TypeError
         | Some text \<Rightarrow>
             if replace_WHITESPACE (textLayers ! i) = replace_WHITESPACE text then Inr (int i)
             else findMatchingTextLayer_lazy_loop textLayers searchText (Suc i))
      else Inr (- 1))"
  by pat_completeness auto
termination
  by (relation "measure (\<lambda>(textLayers, searchText, i). length textLayers - i)") auto

declare findMatchingTextLayer_lazy_loop.simps [simp del]

definition findMatchingTextLayer_lazy :: "document \<Rightarrow> string option \<Rightarrow> error + int" where
  "findMatchingTextLayer_lazy textLayers searchText =
     findMatchingTextLayer_lazy_loop textLayers searchText 0"

text \<open>
  The row loop of the earlier \<^verbatim>\<open>generateLocalizedFiles\<close> (lines 243 to 258):
  \<^verbatim>\<open>
  for (var dataRow = 0; dataRow < worksheetData.length; ++dataRow) {
    if (dataLayerIndices.length < dataRow + 1) {
      var matchingLayerIndex = findMatchingTextLayer(textLayers, worksheetData[dataRow][selectedLanguages.source]);
      dataLayerIndices.push(matchingLayerIndex);
    }
    var layerIndex = dataLayerIndices[dataRow];
    if (layerIndex !== -1) {
      setLayerText(textLayers[layerIndex], worksheetData[dataRow][currentLang]);
    }
  }
  \<close>
  The search runs on the document being edited, after the writes of the rows before.
  \<open>dataRow\<close> is the index of the first row of the list still to be processed.
\<close>

fun generateLocalizedFiles_lazy_rows ::
  "error + string \<Rightarrow> row list \<Rightarrow> nat \<Rightarrow> string \<Rightarrow> string \<Rightarrow> int list \<Rightarrow> document
     \<Rightarrow> error + int list \<times> document" where
  "generateLocalizedFiles_lazy_rows hostUndefined [] dataRow sourceLang currentLang
       dataLayerIndices textLayers =
     Inr (dataLayerIndices, textLayers)"
| "generateLocalizedFiles_lazy_rows hostUndefined (row # rows) dataRow sourceLang currentLang
       dataLayerIndices textLayers =
     (case (if length dataLayerIndices < dataRow + 1 then
              (case findMatchingTextLayer_lazy textLayers (row sourceLang) of
                 Inl e \<Rightarrow> Inl e
               | Inr matchingLayerIndex \<Rightarrow> Inr (dataLayerIndices @ [matchingLayerIndex]))
            else Inr dataLayerIndices) of
        Inl e \<Rightarrow> Inl e
      | Inr dataLayerIndices' \<Rightarrow>
          if dataRow < length dataLayerIndices' then
            (let layerIndex = dataLayerIndices' ! dataRow
             in if layerIndex \<noteq> - 1 then
                  (case setLayerText hostUndefined textLayers layerIndex (row currentLang) of
                     Inl e \<Rightarrow> Inl e
                   | Inr textLayers' \<Rightarrow>
                       generateLocalizedFiles_lazy_rows hostUndefined rows (Suc dataRow)
                         sourceLang currentLang dataLayerIndices' textLayers')
                else generateLocalizedFiles_lazy_rows hostUndefined rows (Suc dataRow)
                       sourceLang currentLang dataLayerIndices' textLayers)
          else Inl TypeError)"

text \<open>
  The language loop of the earlier \<^verbatim>\<open>generateLocalizedFiles\<close> (lines 235 to 262);
  \<open>dataLayerIndices\<close> lives across the languages. The result is the error, if any, the
  \<open>dataLayerIndices\<close> at the end, and the final store.
\<close>

fun generateLocalizedFiles_lazy_langs ::
  "error + string \<Rightarrow> filesystem \<Rightarrow> fileref \<Rightarrow> string \<Rightarrow> string list \<Rightarrow> row list \<Rightarrow> int list
     \<Rightarrow> error option \<times> int list \<times> filesystem" where
  "generateLocalizedFiles_lazy_langs hostUndefined fs ccFile sourceLang [] worksheetData
       dataLayerIndices =
     (None, dataLayerIndices, fs)"
| "generateLocalizedFiles_lazy_langs hostUndefined fs ccFile sourceLang (currentLang # langs)
       worksheetData dataLayerIndices =
     (let targetFilename = generateTargetFilename (name ccFile) currentLang;
          targetFile = path ccFile @ ''/'' @ targetFilename;
          fs1 = file_copy fs (fullName ccFile) targetFile
      in case app_open fs1 targetFile of
           Inl e \<Rightarrow> (Some e, dataLayerIndices, fs1)
         | Inr textLayers \<Rightarrow>
             (case generateLocalizedFiles_lazy_rows hostUndefined worksheetData 0 sourceLang
                     currentLang dataLayerIndices textLayers of
                Inl e \<Rightarrow> (Some e, dataLayerIndices, fs1)
              | Inr (dataLayerIndices', textLayers') \<Rightarrow>
                  generateLocalizedFiles_lazy_langs hostUndefined
                    (doc_save fs1 targetFile textLayers') ccFile sourceLang langs
                    worksheetData dataLayerIndices'))"

definition generateLocalizedFiles_lazy ::
  "error + string \<Rightarrow> filesystem \<Rightarrow> fileref \<Rightarrow> languages \<Rightarrow> row list
     \<Rightarrow> error option \<times> int list \<times> filesystem" where
  "generateLocalizedFiles_lazy hostUndefined fs ccFile selectedLanguages worksheetData =
     generateLocalizedFiles_lazy_langs hostUndefined fs ccFile (source selectedLanguages)
       (target selectedLanguages) worksheetData []"

section \<open>The matcher with the state that outlives a call\<close>

text \<open>
  \<^verbatim>\<open>WHITESPACE_REGEX\<close> is one object, created once with the flag \<^verbatim>\<open>g\<close> and shared by every
  call: its \<^verbatim>\<open>lastIndex\<close> is state that a call finds as the call before left it. The pool
  arrays \<^verbatim>\<open>layerIndices\<close> and \<^verbatim>\<open>layerTextStrings\<close> are changed in place by
  \<^verbatim>\<open>findMatchingTextLayer\<close>. This section writes \<^verbatim>\<open>mapTextLayers\<close> (lines 292 to 309) once
  more, with that state explicit: the state holds \<^verbatim>\<open>lastIndex\<close> and the two arrays, with
  whatever contents an earlier call left there.
\<close>

record script_state =
  st_lastIndex :: nat
  st_layerIndices :: "int list"
  st_layerTextStrings :: "string list"

text \<open>
  \<^verbatim>\<open>RegExp.prototype.exec\<close> for \<^verbatim>\<open>/\s/g\<close>: the search starts at \<^verbatim>\<open>lastIndex\<close>; a match at
  index \<open>j\<close> sets \<^verbatim>\<open>lastIndex\<close> to \<open>j + 1\<close>, a failure sets it to 0. The result is the
  index of the match, if any, and the new \<^verbatim>\<open>lastIndex\<close>.
\<close>

definition regex_exec :: "string \<Rightarrow> nat \<Rightarrow> nat option \<times> nat" where
  "regex_exec text lastIndex =
     (case List.find (\<lambda>k. WHITESPACE_REGEX (text ! k)) [lastIndex..<length text] of
        None \<Rightarrow> (None, 0)
      | Some j \<Rightarrow> (Some j, Suc j))"

text \<open>
  \<^verbatim>\<open>text.replace(WHITESPACE_REGEX, "")\<close> with a global expression: \<^verbatim>\<open>lastIndex\<close> is set to 0,
  \<^verbatim>\<open>exec\<close> is called until it fails, and the result is the text without the characters
  matched. \<open>replace_exec_loop\<close> is the repetition of \<^verbatim>\<open>exec\<close>; it collects the indices
  matched.
\<close>

function replace_exec_loop :: "string \<Rightarrow> nat \<Rightarrow> nat list \<Rightarrow> nat list \<times> nat" where
  "replace_exec_loop text lastIndex matches =
     (case regex_exec text lastIndex of
        (None, lastIndex') \<Rightarrow> (matches, lastIndex')
      | (Some j, lastIndex') \<Rightarrow> replace_exec_loop text lastIndex' (matches @ [j]))"
  by pat_completeness auto
termination
proof (relation "measure (\<lambda>(text, lastIndex, matches). Suc (length text) - lastIndex)", goal_cases)
  case 1
  show ?case by simp
next
  case (2 s lastIndex matches x1 lastIndex' j)
  then have "List.find (\<lambda>k. WHITESPACE_REGEX (s ! k)) [lastIndex..<length s] = Some j"
    and l: "lastIndex' = Suc j"
    by (auto simp: regex_exec_def split: option.splits)
  then have "j \<in> set [lastIndex..<length s]"
    by (auto simp: find_Some_iff)
  then have "lastIndex \<le> j" "j < length s" by simp_all
  with l show ?case by simp
qed

declare replace_exec_loop.simps [simp del]

definition replace_WHITESPACE_st :: "nat \<Rightarrow> string \<Rightarrow> string \<times> nat" where
  "replace_WHITESPACE_st lastIndex text =
     (case replace_exec_loop text 0 [] of
        (matches, lastIndex') \<Rightarrow>
          (map (\<lambda>k. text ! k) (filter (\<lambda>k. k \<notin> set matches) [0..<length text]), lastIndex'))"

text \<open>\<^verbatim>\<open>findMatchingTextLayer\<close> on the arrays of the state: the arrays it leaves are the
  arrays the caller goes on with.\<close>

definition findMatchingTextLayer_st :: "script_state \<Rightarrow> string \<Rightarrow> int \<times> script_state" where
  "findMatchingTextLayer_st st searchText =
     (case findMatchingTextLayer (st_layerTextStrings st) (st_layerIndices st) searchText of
        (matchIndex, layerTextStrings', layerIndices') \<Rightarrow>
          (matchIndex,
           st\<lparr>st_layerTextStrings := layerTextStrings', st_layerIndices := layerIndices'\<rparr>))"

text \<open>
  The loop that fills the pool (lines 294 to 297):
  \<^verbatim>\<open>
  for (var i = 0; i < textLayers.length; ++i) {
    layerIndices.push(i);
    layerTextStrings.push(getLayerText(textLayers[i]).replace(WHITESPACE_REGEX, ""));
  }
  \<close>
  \<open>i\<close> is the index of the first layer of the list still to be pushed.
\<close>

fun mapTextLayers_pool_st :: "document \<Rightarrow> nat \<Rightarrow> script_state \<Rightarrow> script_state" where
  "mapTextLayers_pool_st [] i st = st"
| "mapTextLayers_pool_st (layerText # textLayers) i st =
     (case replace_WHITESPACE_st (st_lastIndex st) layerText of
        (trimmed, lastIndex') \<Rightarrow>
          mapTextLayers_pool_st textLayers (Suc i)
            (st\<lparr>st_lastIndex := lastIndex',
                st_layerIndices := st_layerIndices st @ [int i],
                st_layerTextStrings := st_layerTextStrings st @ [trimmed]\<rparr>))"

text \<open>The row loop (lines 302 to 309) on the state.\<close>

fun mapTextLayers_rows_st ::
  "row list \<Rightarrow> string \<Rightarrow> int list \<Rightarrow> string list \<Rightarrow> script_state
     \<Rightarrow> (error + int list \<times> string list) \<times> script_state" where
  "mapTextLayers_rows_st [] sourceLang textLayerMap missingText st =
     (Inr (textLayerMap, missingText), st)"
| "mapTextLayers_rows_st (row # rows) sourceLang textLayerMap missingText st =
     (case row sourceLang of
        None \<Rightarrow> (Inl TypeError, st)
      | Some sourceText \<Rightarrow>
          (case replace_WHITESPACE_st (st_lastIndex st) sourceText of
             (trimmedSourceText, lastIndex') \<Rightarrow>
               (case findMatchingTextLayer_st (st\<lparr>st_lastIndex := lastIndex'\<rparr>)
                       trimmedSourceText of
                  (layerMatchIndex, st') \<Rightarrow>
                    mapTextLayers_rows_st rows sourceLang (textLayerMap @ [layerMatchIndex])
                      (if layerMatchIndex = - 1 then missingText @ [sourceText]
                       else missingText) st')))"

text \<open>
  Lines 292 to 309 on the state: \<^verbatim>\<open>var layerIndices = []; var layerTextStrings = [];\<close>, the
  pool loop, \<^verbatim>\<open>var textLayerMap = []; var missingText = [];\<close>, the row loop. The result is
  the \<^verbatim>\<open>textLayerMap\<close> and the \<^verbatim>\<open>missingText\<close> list, and the state the call leaves.
\<close>

definition mapTextLayers_match_st ::
  "document \<Rightarrow> row list \<Rightarrow> string \<Rightarrow> script_state
     \<Rightarrow> (error + int list \<times> string list) \<times> script_state" where
  "mapTextLayers_match_st textLayers worksheetData sourceLang st =
     mapTextLayers_rows_st worksheetData sourceLang [] []
       (mapTextLayers_pool_st textLayers 0
          (st\<lparr>st_layerIndices := [], st_layerTextStrings := []\<rparr>))"

section \<open>Notions used to state the properties\<close>

text \<open>
  The candidates still in the pool once the entries of \<open>claimed\<close> have been pushed on
  the map: the indices of the layers not claimed, in enumeration order, and their texts
  without whitespace. \<open>first_free\<close> is the first of them whose text is \<open>key\<close>, or the
  sentinel.
\<close>

definition pool_indices :: "document \<Rightarrow> int list \<Rightarrow> int list" where
  "pool_indices textLayers claimed =
     filter (\<lambda>e. e \<notin> set claimed) (map int [0..<length textLayers])"

definition pool_texts :: "document \<Rightarrow> int list \<Rightarrow> string list" where
  "pool_texts textLayers claimed =
     map (\<lambda>e. replace_WHITESPACE (textLayers ! nat e)) (pool_indices textLayers claimed)"

definition first_free :: "document \<Rightarrow> int list \<Rightarrow> string \<Rightarrow> int" where
  "first_free textLayers claimed key =
     (case List.find (\<lambda>e. replace_WHITESPACE (textLayers ! nat e) = key)
             (pool_indices textLayers claimed) of
        None \<Rightarrow> - 1
      | Some e \<Rightarrow> e)"

section \<open>Properties of the target file name\<close>

lemma split_nonempty: "split sep s \<noteq> []"
  by (induction s) (auto split: list.splits)

lemma generateTargetFilename_index_in_range:
  "nat (max 0 (int (length (split CHR ''.'' s)) - 2)) < length (split CHR ''.'' s)"
  using split_nonempty [of "CHR ''.''" s] by (cases "split CHR ''.'' s") auto

lemma split_no_sep: "sep \<notin> set s \<Longrightarrow> split sep s = [s]"
  by (induction s) auto

lemma split_snoc_component:
  "sep \<notin> set e \<Longrightarrow> split sep (b @ sep # e) = split sep b @ [e]"
proof (induction b)
  case Nil
  then show ?case by (simp add: split_no_sep)
next
  case (Cons c b)
  then show ?case
    using split_nonempty [of sep b]
    by (cases "split sep b") (auto split: list.splits)
qed

lemma join_split: "join [sep] (split sep s) = s"
proof (induction s)
  case Nil
  then show ?case by simp
next
  case (Cons c s)
  show ?case
  proof (cases "split sep s")
    case Nil
    then show ?thesis using split_nonempty [of sep s] by simp
  next
    case (Cons w ws)
    with Cons.IH show ?thesis by (cases ws) auto
  qed
qed

lemma join_snoc:
  "ws \<noteq> [] \<Longrightarrow> join sep (ws @ [e]) = join sep ws @ sep @ e"
  by (induction sep ws rule: join.induct) auto

lemma join_update_last:
  "ws \<noteq> [] \<Longrightarrow> join sep (ws[length ws - 1 := ws ! (length ws - 1) @ x]) = join sep ws @ x"
proof (induction sep ws rule: join.induct)
  case (3 sep w v ws)
  then show ?case by (cases ws) auto
qed auto

lemma generateTargetFilename_no_dot:
  assumes "CHR ''.'' \<notin> set sourceName"
  shows "generateTargetFilename sourceName targetLang = sourceName @ ''_'' @ targetLang"
  using assms by (simp add: generateTargetFilename_def split_no_sep)

lemma generateTargetFilename_dot:
  assumes "CHR ''.'' \<notin> set ext"
  shows "generateTargetFilename (base @ ''.'' @ ext) targetLang
           = base @ ''_'' @ targetLang @ ''.'' @ ext"
proof -
  let ?ws = "split CHR ''.'' base"
  have ne: "?ws \<noteq> []" by (rule split_nonempty)
  have sp: "split CHR ''.'' (base @ ''.'' @ ext) = ?ws @ [ext]"
    using split_snoc_component [OF assms, of base] by simp
  have k: "nat (max 0 (int (length (?ws @ [ext])) - 2)) = length ?ws - 1"
    using ne by (cases ?ws) auto
  have lt: "length ?ws - 1 < length ?ws"
    using ne by (cases ?ws) auto
  have "generateTargetFilename (base @ ''.'' @ ext) targetLang
          = join ''.'' ((?ws @ [ext])[length ?ws - 1 := (?ws @ [ext]) ! (length ?ws - 1) @ ''_'' @ targetLang])"
    unfolding generateTargetFilename_def sp Let_def k ..
  also have "\<dots> = join ''.'' (?ws[length ?ws - 1 := ?ws ! (length ?ws - 1) @ ''_'' @ targetLang] @ [ext])"
    using lt by (simp add: list_update_append nth_append)
  also have "\<dots> = join ''.'' (?ws[length ?ws - 1 := ?ws ! (length ?ws - 1) @ ''_'' @ targetLang]) @ ''.'' @ ext"
    using ne by (intro join_snoc) simp
  also have "\<dots> = (join ''.'' ?ws @ ''_'' @ targetLang) @ ''.'' @ ext"
    using join_update_last [OF ne] by simp
  also have "\<dots> = base @ ''_'' @ targetLang @ ''.'' @ ext"
    using join_split [of "CHR ''.''" base] by simp
  finally show ?thesis .
qed

lemma generateTargetFilename_length:
  "length (generateTargetFilename sourceName targetLang)
     = length sourceName + 1 + length targetLang"
proof (cases "CHR ''.'' \<in> set sourceName")
  case False
  then show ?thesis by (simp add: generateTargetFilename_no_dot)
next
  case True
  then obtain ys zs where s: "sourceName = ys @ CHR ''.'' # zs" and z: "CHR ''.'' \<notin> set zs"
    by (auto dest: split_list_last)
  have "generateTargetFilename (ys @ ''.'' @ zs) targetLang = ys @ ''_'' @ targetLang @ ''.'' @ zs"
    using z by (rule generateTargetFilename_dot)
  then show ?thesis using s by simp
qed

lemma generateTargetFilename_differs:
  "generateTargetFilename sourceName targetLang \<noteq> sourceName"
proof
  assume "generateTargetFilename sourceName targetLang = sourceName"
  then have "length (generateTargetFilename sourceName targetLang) = length sourceName"
    by simp
  then show False by (simp add: generateTargetFilename_length)
qed

text \<open>
  Claim C8. For every source file name and target language, \<open>generateTargetFilename\<close>
  inserts \<open>_\<close> followed by the target language immediately before the final
  dot-separated segment when the name contains a dot, and appends it to the whole name
  when the name contains no dot; \<open>(poster.psd, fr)\<close> gives \<open>poster_fr.psd\<close> and
  \<open>(readme, es)\<close> gives \<open>readme_es\<close>.
\<close>

theorem generateTargetFilename_spec:
  "(CHR ''.'' \<notin> set ext \<longrightarrow>
      generateTargetFilename (base @ ''.'' @ ext) targetLang
        = base @ ''_'' @ targetLang @ ''.'' @ ext)
   \<and> (CHR ''.'' \<notin> set sourceName \<longrightarrow>
      generateTargetFilename sourceName targetLang = sourceName @ ''_'' @ targetLang)
   \<and> generateTargetFilename ''poster.psd'' ''fr'' = ''poster_fr.psd''
   \<and> generateTargetFilename ''readme'' ''es'' = ''readme_es''"
proof (intro conjI impI)
  assume "CHR ''.'' \<notin> set ext"
  then show "generateTargetFilename (base @ ''.'' @ ext) targetLang
               = base @ ''_'' @ targetLang @ ''.'' @ ext"
    by (rule generateTargetFilename_dot)
next
  assume "CHR ''.'' \<notin> set sourceName"
  then show "generateTargetFilename sourceName targetLang = sourceName @ ''_'' @ targetLang"
    by (rule generateTargetFilename_no_dot)
next
  show "generateTargetFilename ''poster.psd'' ''fr'' = ''poster_fr.psd''"
    by (simp add: generateTargetFilename_def)
next
  show "generateTargetFilename ''readme'' ''es'' = ''readme_es''"
    by (simp add: generateTargetFilename_def)
qed

theorem generateTargetFilename_spec_witness:
  "CHR ''.'' \<notin> set ''gz''
   \<and> generateTargetFilename (''archive.tar'' @ ''.'' @ ''gz'') ''de''
       = ''archive.tar_de.gz''
   \<and> CHR ''.'' \<notin> set ''Makefile''
   \<and> generateTargetFilename ''Makefile'' ''de'' = ''Makefile_de''"
  using generateTargetFilename_spec [of "''gz''" "''archive.tar''" "''de''" "''Makefile''"]
  by simp

text \<open>
  Claim C10. For every source file name whose only dot is its first character (a dotfile
  such as \<open>.psd\<close>), \<open>generateTargetFilename\<close> takes the text after the dot as the
  extension and attaches the suffix to the empty component before the dot: the result is
  \<open>_\<close>, the target language, then the original name (\<open>(.psd, fr)\<close> gives \<open>_fr.psd\<close>),
  and not the name with the suffix appended.
\<close>

theorem generateTargetFilename_dotfile:
  "(CHR ''.'' \<notin> set ext \<longrightarrow>
      generateTargetFilename (''.'' @ ext) targetLang = ''_'' @ targetLang @ (''.'' @ ext)
      \<and> generateTargetFilename (''.'' @ ext) targetLang \<noteq> (''.'' @ ext) @ ''_'' @ targetLang)
   \<and> generateTargetFilename ''.psd'' ''fr'' = ''_fr.psd''"
proof (intro conjI impI)
  assume e: "CHR ''.'' \<notin> set ext"
  show g: "generateTargetFilename (''.'' @ ext) targetLang = ''_'' @ targetLang @ (''.'' @ ext)"
    using generateTargetFilename_dot [OF e, of "[]" targetLang] by simp
  show "generateTargetFilename (''.'' @ ext) targetLang \<noteq> (''.'' @ ext) @ ''_'' @ targetLang"
    unfolding g by simp
next
  show "generateTargetFilename ''.psd'' ''fr'' = ''_fr.psd''"
    by (simp add: generateTargetFilename_def)
qed

theorem generateTargetFilename_dotfile_witness:
  "CHR ''.'' \<notin> set ''gitignore''
   \<and> generateTargetFilename ''.gitignore'' ''es'' = ''_es.gitignore''
   \<and> generateTargetFilename ''.gitignore'' ''es'' \<noteq> ''.gitignore_es''"
  using generateTargetFilename_dotfile [of "''gitignore''" "''es''"]
  by simp

section \<open>Properties of the matcher\<close>

lemma filter_neq_notin: "x \<notin> set ys \<Longrightarrow> filter (\<lambda>y. y \<noteq> x) ys = ys"
  by (induction ys) auto

lemma splice_at_distinct:
  "distinct xs \<Longrightarrow> j < length xs \<Longrightarrow> splice_at xs j = filter (\<lambda>x. x \<noteq> xs ! j) xs"
proof -
  assume d: "distinct xs" and j: "j < length xs"
  have xs: "xs = take j xs @ xs ! j # drop (Suc j) xs"
    using j by (rule id_take_nth_drop)
  have "distinct (take j xs @ xs ! j # drop (Suc j) xs)" using d xs by simp
  then have a: "xs ! j \<notin> set (take j xs)" and b: "xs ! j \<notin> set (drop (Suc j) xs)"
    by auto
  have "filter (\<lambda>x. x \<noteq> xs ! j) xs
          = filter (\<lambda>x. x \<noteq> xs ! j) (take j xs @ xs ! j # drop (Suc j) xs)"
    using xs by simp
  also have "\<dots> = take j xs @ drop (Suc j) xs"
    using a b by (simp add: filter_neq_notin)
  finally show ?thesis by (simp add: splice_at_def)
qed

lemma findMatchingTextLayer_loop_cases:
  "(findMatchingTextLayer_loop ts ixs s i = (- 1, ts, ixs)
      \<and> (\<forall>j. i \<le> j \<and> j < length ixs \<and> j < length ts \<longrightarrow> ts ! j \<noteq> s))
   \<or> (\<exists>j. i \<le> j \<and> j < length ixs \<and> j < length ts \<and> ts ! j = s
          \<and> (\<forall>k. i \<le> k \<and> k < j \<longrightarrow> ts ! k \<noteq> s)
          \<and> findMatchingTextLayer_loop ts ixs s i = (ixs ! j, splice_at ts j, splice_at ixs j))"
proof (induction ts ixs s i rule: findMatchingTextLayer_loop.induct)
  case (1 ts ixs s i)
  show ?case
  proof (cases "i < length ixs")
    case False
    then show ?thesis by (auto simp: findMatchingTextLayer_loop.simps [of ts ixs s i])
  next
    case True
    show ?thesis
    proof (cases "i < length ts \<and> ts ! i = s")
      case hit: True
      have "findMatchingTextLayer_loop ts ixs s i = (ixs ! i, splice_at ts i, splice_at ixs i)"
        using True hit by (simp add: findMatchingTextLayer_loop.simps [of ts ixs s i])
      with True hit show ?thesis by auto
    next
      case miss: False
      have step: "findMatchingTextLayer_loop ts ixs s i = findMatchingTextLayer_loop ts ixs s (Suc i)"
        using True miss by (auto simp: findMatchingTextLayer_loop.simps [of ts ixs s i])
      from "1.IH" [OF True miss]
      show ?thesis
      proof (elim disjE conjE exE)
        assume r: "findMatchingTextLayer_loop ts ixs s (Suc i) = (- 1, ts, ixs)"
          and n: "\<forall>j. Suc i \<le> j \<and> j < length ixs \<and> j < length ts \<longrightarrow> ts ! j \<noteq> s"
        have "\<forall>j. i \<le> j \<and> j < length ixs \<and> j < length ts \<longrightarrow> ts ! j \<noteq> s"
        proof (intro allI impI)
          fix j assume j: "i \<le> j \<and> j < length ixs \<and> j < length ts"
          show "ts ! j \<noteq> s"
          proof (cases "j = i")
            case True then show ?thesis using miss j by auto
          next
            case False then show ?thesis using n j by auto
          qed
        qed
        with r step show ?thesis by simp
      next
        fix j
        assume j: "Suc i \<le> j" "j < length ixs" "j < length ts" "ts ! j = s"
          and n: "\<forall>k. Suc i \<le> k \<and> k < j \<longrightarrow> ts ! k \<noteq> s"
          and r: "findMatchingTextLayer_loop ts ixs s (Suc i) = (ixs ! j, splice_at ts j, splice_at ixs j)"
        have "\<forall>k. i \<le> k \<and> k < j \<longrightarrow> ts ! k \<noteq> s"
        proof (intro allI impI)
          fix k assume k: "i \<le> k \<and> k < j"
          show "ts ! k \<noteq> s"
          proof (cases "k = i")
            case True then show ?thesis using miss j k by auto
          next
            case False then show ?thesis using n k by auto
          qed
        qed
        with j r step show ?thesis by (intro disjI2 exI [of _ j]) auto
      qed
    qed
  qed
qed

lemma findMatchingTextLayer_cases:
  "(findMatchingTextLayer ts ixs s = (- 1, ts, ixs)
      \<and> (\<forall>j. j < length ixs \<and> j < length ts \<longrightarrow> ts ! j \<noteq> s))
   \<or> (\<exists>j. j < length ixs \<and> j < length ts \<and> ts ! j = s
          \<and> (\<forall>k. k < j \<longrightarrow> ts ! k \<noteq> s)
          \<and> findMatchingTextLayer ts ixs s = (ixs ! j, splice_at ts j, splice_at ixs j))"
proof (cases "length ixs > 0")
  case True
  then show ?thesis
    using findMatchingTextLayer_loop_cases [of ts ixs s 0]
    by (simp add: findMatchingTextLayer_def)
next
  case False
  then show ?thesis by (simp add: findMatchingTextLayer_def)
qed

lemma mapTextLayers_rows_counts:
  "mapTextLayers_rows rows sourceLang ts ixs tlm mt = Inr (tlm', mt') \<Longrightarrow>
     length tlm' = length tlm + length rows
     \<and> length (filter (\<lambda>m. m \<noteq> - 1) tlm') + length mt'
         = length (filter (\<lambda>m. m \<noteq> - 1) tlm) + length mt + length rows"
proof (induction rows arbitrary: ts ixs tlm mt)
  case Nil
  then show ?case by simp
next
  case (Cons row rows)
  from Cons.prems obtain sourceText where c: "row sourceLang = Some sourceText"
    by (cases "row sourceLang") auto
  obtain m ts1 ixs1 where f: "findMatchingTextLayer ts ixs (replace_WHITESPACE sourceText) = (m, ts1, ixs1)"
    by (cases "findMatchingTextLayer ts ixs (replace_WHITESPACE sourceText)") auto
  from Cons.prems c f
  have "mapTextLayers_rows rows sourceLang ts1 ixs1 (tlm @ [m])
          (if m = - 1 then mt @ [sourceText] else mt) = Inr (tlm', mt')"
    by simp
  from Cons.IH [OF this] show ?case by (cases "m = - 1") auto
qed

lemma distinct_pool_indices: "distinct (pool_indices L c)"
  by (simp add: pool_indices_def distinct_map)

lemma length_pool_texts: "length (pool_texts L c) = length (pool_indices L c)"
  by (simp add: pool_texts_def)

lemma pool_indices_snoc_sentinel: "pool_indices L (c @ [- 1]) = pool_indices L c"
  unfolding pool_indices_def by (rule filter_cong) auto

lemma pool_indices_snoc:
  "pool_indices L (c @ [m]) = filter (\<lambda>x. x \<noteq> m) (pool_indices L c)"
  unfolding pool_indices_def by (auto intro: filter_cong)

lemma splice_at_map: "splice_at (map f xs) j = map f (splice_at xs j)"
  by (simp add: splice_at_def take_map drop_map)

lemma findMatchingTextLayer_pool:
  "findMatchingTextLayer (pool_texts L c) (pool_indices L c) key
     = (first_free L c key,
        pool_texts L (c @ [first_free L c key]),
        pool_indices L (c @ [first_free L c key]))"
proof -
  let ?ixs = "pool_indices L c" and ?ts = "pool_texts L c"
  let ?P = "\<lambda>e. replace_WHITESPACE (L ! nat e) = key"
  have nth: "\<And>j. j < length ?ixs \<Longrightarrow> ?ts ! j = replace_WHITESPACE (L ! nat (?ixs ! j))"
    by (simp add: pool_texts_def)
  from findMatchingTextLayer_cases [of ?ts ?ixs key]
  show ?thesis
  proof (elim disjE conjE exE)
    assume r: "findMatchingTextLayer ?ts ?ixs key = (- 1, ?ts, ?ixs)"
      and n: "\<forall>j. j < length ?ixs \<and> j < length ?ts \<longrightarrow> ?ts ! j \<noteq> key"
    have "\<not> (\<exists>e. e \<in> set ?ixs \<and> ?P e)"
    proof
      assume "\<exists>e. e \<in> set ?ixs \<and> ?P e"
      then obtain e where e: "e \<in> set ?ixs" "?P e" by blast
      then obtain j where j: "j < length ?ixs" "?ixs ! j = e" by (auto simp: in_set_conv_nth)
      with n nth [of j] e show False by (simp add: length_pool_texts)
    qed
    then have "List.find ?P ?ixs = None" by (simp add: find_None_iff)
    then have ff: "first_free L c key = - 1" by (simp add: first_free_def)
    show ?thesis
      unfolding r ff by (simp add: pool_indices_snoc_sentinel pool_texts_def)
  next
    fix j
    assume j: "j < length ?ixs" "j < length ?ts" "?ts ! j = key"
      and n: "\<forall>k. k < j \<longrightarrow> ?ts ! k \<noteq> key"
      and r: "findMatchingTextLayer ?ts ?ixs key = (?ixs ! j, splice_at ?ts j, splice_at ?ixs j)"
    have "\<forall>k<j. \<not> ?P (?ixs ! k)"
      using n nth j by auto
    moreover have "?P (?ixs ! j)" using j nth [of j] by simp
    ultimately have "List.find ?P ?ixs = Some (?ixs ! j)"
      using j by (auto simp: find_Some_iff)
    then have ff: "first_free L c key = ?ixs ! j" by (simp add: first_free_def)
    have ix: "splice_at ?ixs j = pool_indices L (c @ [?ixs ! j])"
      using splice_at_distinct [OF distinct_pool_indices j(1)]
      by (simp add: pool_indices_snoc)
    have "splice_at ?ts j = map (\<lambda>e. replace_WHITESPACE (L ! nat e)) (splice_at ?ixs j)"
      by (simp add: pool_texts_def splice_at_map)
    then have tx: "splice_at ?ts j = pool_texts L (c @ [?ixs ! j])"
      unfolding ix by (simp add: pool_texts_def)
    show ?thesis unfolding r ff ix tx ..
  qed
qed

lemma first_free_cases:
  "(first_free L c key = - 1
      \<and> (\<forall>e<length L. int e \<notin> set c \<longrightarrow> replace_WHITESPACE (L ! e) \<noteq> key))
   \<or> (\<exists>e<length L. first_free L c key = int e \<and> int e \<notin> set c
          \<and> replace_WHITESPACE (L ! e) = key
          \<and> (\<forall>e'<e. int e' \<notin> set c \<longrightarrow> replace_WHITESPACE (L ! e') \<noteq> key))"
proof -
  let ?P = "\<lambda>e. replace_WHITESPACE (L ! nat e) = key"
  let ?Q = "\<lambda>e. e \<notin> set c"
  let ?U = "map int [0..<length L]"
  show ?thesis
  proof (cases "List.find ?P (pool_indices L c)")
    case None
    then have np: "\<forall>x \<in> set (pool_indices L c). \<not> ?P x" by (simp add: find_None_iff)
    have "\<forall>e<length L. int e \<notin> set c \<longrightarrow> replace_WHITESPACE (L ! e) \<noteq> key"
    proof (intro allI impI)
      fix e assume e: "e < length L" "int e \<notin> set c"
      then have "int e \<in> set (pool_indices L c)" by (simp add: pool_indices_def)
      with np have "\<not> ?P (int e)" by blast
      then show "replace_WHITESPACE (L ! e) \<noteq> key" by simp
    qed
    with None show ?thesis by (simp add: first_free_def)
  next
    case (Some x)
    then obtain i where i: "i < length (pool_indices L c)" "?P (pool_indices L c ! i)"
      "x = pool_indices L c ! i" "\<forall>k<i. \<not> ?P (pool_indices L c ! k)"
      by (auto simp: find_Some_iff)
    have xin: "x \<in> set (pool_indices L c)" using i by auto
    then obtain e where e: "e < length L" "x = int e" "int e \<notin> set c"
      by (auto simp: pool_indices_def)
    have least: "\<forall>e'<e. int e' \<notin> set c \<longrightarrow> replace_WHITESPACE (L ! e') \<noteq> key"
    proof (intro allI impI)
      fix e' assume e': "e' < e" "int e' \<notin> set c"
      then have "int e' \<in> set (pool_indices L c)" using e by (auto simp: pool_indices_def)
      then obtain k where k: "k < length (pool_indices L c)" "pool_indices L c ! k = int e'"
        by (auto simp: in_set_conv_nth)
      have srt: "sorted (pool_indices L c)"
        unfolding pool_indices_def by (intro sorted_wrt_filter) (simp add: sorted_map)
      have "k < i"
      proof (rule ccontr)
        assume "\<not> k < i"
        then have "i \<le> k" by simp
        then have "pool_indices L c ! i \<le> pool_indices L c ! k"
          using srt k(1) by (intro sorted_nth_mono)
        with k i e e' show False by simp
      qed
      with i k show "replace_WHITESPACE (L ! e') \<noteq> key" by auto
    qed
    show ?thesis
      using Some e i least by (auto simp: first_free_def)
  qed
qed

lemma mapTextLayers_rows_pool:
  "mapTextLayers_rows rows sourceLang (pool_texts L c) (pool_indices L c) c mt = Inr (tlm, mt')
   \<Longrightarrow> \<exists>ms. tlm = c @ ms \<and> length ms = length rows
          \<and> (\<forall>k<length rows. \<exists>t. (rows ! k) sourceLang = Some t
                \<and> ms ! k = first_free L (c @ take k ms) (replace_WHITESPACE t))"
proof (induction rows arbitrary: c mt)
  case Nil
  then show ?case by simp
next
  case (Cons row rows)
  from Cons.prems obtain t where t: "row sourceLang = Some t"
    by (cases "row sourceLang") auto
  let ?m = "first_free L c (replace_WHITESPACE t)"
  from Cons.prems t
  have "mapTextLayers_rows rows sourceLang (pool_texts L (c @ [?m])) (pool_indices L (c @ [?m]))
          (c @ [?m]) (if ?m = - 1 then mt @ [t] else mt) = Inr (tlm, mt')"
    by (simp add: findMatchingTextLayer_pool)
  from Cons.IH [OF this] obtain ms where ms: "tlm = (c @ [?m]) @ ms" "length ms = length rows"
    "\<forall>k<length rows. \<exists>t. (rows ! k) sourceLang = Some t
        \<and> ms ! k = first_free L ((c @ [?m]) @ take k ms) (replace_WHITESPACE t)"
    by blast
  have "\<forall>k<length (row # rows). \<exists>t. ((row # rows) ! k) sourceLang = Some t
          \<and> (?m # ms) ! k = first_free L (c @ take k (?m # ms)) (replace_WHITESPACE t)"
  proof (intro allI impI)
    fix k assume k: "k < length (row # rows)"
    show "\<exists>t. ((row # rows) ! k) sourceLang = Some t
          \<and> (?m # ms) ! k = first_free L (c @ take k (?m # ms)) (replace_WHITESPACE t)"
    proof (cases k)
      case 0
      then show ?thesis using t by simp
    next
      case (Suc k')
      then show ?thesis using ms(3) k by simp
    qed
  qed
  with ms show ?case by (intro exI [of _ "?m # ms"]) simp
qed

lemma mapTextLayers_match_pool:
  "mapTextLayers_match L rows sourceLang
     = mapTextLayers_rows rows sourceLang (pool_texts L []) (pool_indices L []) [] []"
proof -
  have p: "pool_indices L [] = map int [0..<length L]"
    by (simp add: pool_indices_def)
  have "map (\<lambda>e. replace_WHITESPACE (L ! nat e)) (map int [0..<length L])
          = map replace_WHITESPACE (map (\<lambda>i. L ! i) [0..<length L])"
    by simp
  then have q: "pool_texts L [] = map replace_WHITESPACE L"
    unfolding pool_texts_def p by (simp only: map_nth)
  show ?thesis by (simp add: mapTextLayers_match_def p q)
qed

lemma mapTextLayers_match_nth:
  assumes "mapTextLayers_match L rows sourceLang = Inr (tlm, mt)"
  shows "length tlm = length rows"
    and "k < length rows \<Longrightarrow> \<exists>t. (rows ! k) sourceLang = Some t
           \<and> tlm ! k = first_free L (take k tlm) (replace_WHITESPACE t)"
proof -
  from assms have "mapTextLayers_rows rows sourceLang (pool_texts L []) (pool_indices L []) [] []
                     = Inr (tlm, mt)"
    by (simp add: mapTextLayers_match_pool)
  from mapTextLayers_rows_pool [OF this]
  show "length tlm = length rows"
    and "k < length rows \<Longrightarrow> \<exists>t. (rows ! k) sourceLang = Some t
           \<and> tlm ! k = first_free L (take k tlm) (replace_WHITESPACE t)"
    by auto
qed


lemma mapTextLayers_match_entry:
  assumes m: "mapTextLayers_match L rows sourceLang = Inr (tlm, mt)"
    and k: "k < length rows" and t: "(rows ! k) sourceLang = Some t"
  shows "(tlm ! k = - 1
            \<and> (\<forall>e<length L. int e \<notin> set (take k tlm)
                  \<longrightarrow> replace_WHITESPACE (L ! e) \<noteq> replace_WHITESPACE t))
         \<or> (\<exists>e<length L. tlm ! k = int e \<and> int e \<notin> set (take k tlm)
              \<and> replace_WHITESPACE (L ! e) = replace_WHITESPACE t
              \<and> (\<forall>e'<e. int e' \<notin> set (take k tlm)
                    \<longrightarrow> replace_WHITESPACE (L ! e') \<noteq> replace_WHITESPACE t))"
proof -
  from mapTextLayers_match_nth(2) [OF m k] t
  have "tlm ! k = first_free L (take k tlm) (replace_WHITESPACE t)" by simp
  with first_free_cases [of L "take k tlm" "replace_WHITESPACE t"]
  show ?thesis by simp
qed

lemma mapTextLayers_match_injective:
  assumes m: "mapTextLayers_match L rows sourceLang = Inr (tlm, mt)"
    and i: "i < j" and j: "j < length tlm" and ni: "tlm ! i \<noteq> - 1"
  shows "tlm ! i \<noteq> tlm ! j"
proof -
  have len: "length tlm = length rows" by (rule mapTextLayers_match_nth(1) [OF m])
  then have jr: "j < length rows" using j by simp
  from mapTextLayers_match_nth(2) [OF m jr] obtain t where t: "(rows ! j) sourceLang = Some t"
    by blast
  have mem: "tlm ! i \<in> set (take j tlm)"
    using i j by (auto simp: in_set_conv_nth intro!: exI [of _ i])
  from mapTextLayers_match_entry [OF m jr t] show ?thesis
  proof (elim disjE conjE exE)
    assume "tlm ! j = - 1"
    with ni show ?thesis by simp
  next
    fix e assume "tlm ! j = int e" "int e \<notin> set (take j tlm)"
    with mem show ?thesis by auto
  qed
qed

lemma mapTextLayers_match_of_mapTextLayers:
  assumes "mapTextLayers fs confirm ccFile worksheetData sourceLang = Inr (Some textLayerMap)"
  shows "\<exists>textLayers missingText. fs (fullName ccFile) = Some textLayers
           \<and> mapTextLayers_match textLayers worksheetData sourceLang
                = Inr (textLayerMap, missingText)"
  using assms
  by (auto simp: mapTextLayers_def app_open_def split: option.splits sum.splits prod.splits if_splits)

lemma mapTextLayers_match_single:
  assumes "row sourceLang = Some rowText"
  shows "mapTextLayers_match [layerText] [row] sourceLang
           = Inr (if replace_WHITESPACE layerText = replace_WHITESPACE rowText
                  then ([0], []) else ([- 1], [rowText]))"
proof (cases "replace_WHITESPACE layerText = replace_WHITESPACE rowText")
  case True
  then show ?thesis
    using assms
    by (simp add: mapTextLayers_match_def findMatchingTextLayer_def
          findMatchingTextLayer_loop.simps [of _ _ _ 0] splice_at_def)
next
  case False
  then show ?thesis
    using assms
    by (simp add: mapTextLayers_match_def findMatchingTextLayer_def
          findMatchingTextLayer_loop.simps [of _ _ _ 0]
          findMatchingTextLayer_loop.simps [of _ _ _ "Suc 0"])
qed

lemma replace_WHITESPACE_insert:
  "WHITESPACE_REGEX c \<Longrightarrow> replace_WHITESPACE (xs @ c # ys) = replace_WHITESPACE (xs @ ys)"
  by (simp add: replace_WHITESPACE_def)

text \<open>
  Claim C1, as amended. For every sequence of layers and every sequence of rows, the map
  returned by \<open>mapTextLayers\<close> of \<^verbatim>\<open>PictureList_Import.jsx\<close> is injective on its entries
  other than the sentinel: no two distinct row indices hold the same layer index, since
  each candidate is removed from the pool when it is claimed.
\<close>

theorem mapTextLayers_injective:
  assumes r: "mapTextLayers fs confirm ccFile worksheetData sourceLang = Inr (Some textLayerMap)"
    and i: "i < length textLayerMap" and j: "j < length textLayerMap"
    and ij: "i \<noteq> j" and ni: "textLayerMap ! i \<noteq> - 1"
  shows "textLayerMap ! i \<noteq> textLayerMap ! j"
proof -
  from mapTextLayers_match_of_mapTextLayers [OF r] obtain L mt
    where m: "mapTextLayers_match L worksheetData sourceLang = Inr (textLayerMap, mt)"
    by blast
  show ?thesis
  proof (cases "i < j")
    case True
    from mapTextLayers_match_injective [OF m True j ni] show ?thesis .
  next
    case False
    then have ji: "j < i" using ij by simp
    show ?thesis
    proof (cases "textLayerMap ! j = - 1")
      case True
      with ni show ?thesis by simp
    next
      case False
      from mapTextLayers_match_injective [OF m ji i False] show ?thesis by simp
    qed
  qed
qed

theorem mapTextLayers_injective_witness:
  "mapTextLayers [''/work/poster.psd'' \<mapsto> [''Hello'', ''Hello'', ''Bye '']] (\<lambda>missingText. True)
       \<lparr>path = ''/work'', name = ''poster.psd''\<rparr>
       [[''en'' \<mapsto> ''Hello''], [''en'' \<mapsto> ''Bye''], [''en'' \<mapsto> ''Hello'']] ''en''
     = Inr (Some [0, 2, 1])
   \<and> (0::nat) < length [0, 2, 1 :: int] \<and> (2::nat) < length [0, 2, 1 :: int] \<and> (0::nat) \<noteq> 2
   \<and> [0, 2, 1 :: int] ! 0 \<noteq> - 1
   \<and> [0, 2, 1 :: int] ! 0 \<noteq> [0, 2, 1] ! 2"
proof -
  have r: "mapTextLayers [''/work/poster.psd'' \<mapsto> [''Hello'', ''Hello'', ''Bye '']] (\<lambda>missingText. True)
       \<lparr>path = ''/work'', name = ''poster.psd''\<rparr>
       [[''en'' \<mapsto> ''Hello''], [''en'' \<mapsto> ''Bye''], [''en'' \<mapsto> ''Hello'']] ''en''
     = Inr (Some [0, 2, 1])"
    by code_simp
  from mapTextLayers_injective [OF r, of 0 2] r show ?thesis by simp
qed

text \<open>
  Claim C1 as stated fails for the earlier script, which the claim also cites: its
  \<^verbatim>\<open>findMatchingTextLayer\<close> has no pool and removes nothing. On the layers \<open>OK\<close>, \<open>OK\<close> and
  two rows \<open>{en: OK, fr: OK}\<close>, the first row finds layer 0 and writes \<open>OK\<close> there, and the
  second row finds layer 0 again: the map is \<open>[0, 0]\<close>, where the current script returns
  \<open>[0, 1]\<close>.
\<close>

theorem generateLocalizedFiles_lazy_not_injective_counterexample:
  "fst (snd (generateLocalizedFiles_lazy (Inl HostError) [''/work/a.psd'' \<mapsto> [''OK'', ''OK'']]
          \<lparr>path = ''/work'', name = ''a.psd''\<rparr> \<lparr>source = ''en'', target = [''fr'']\<rparr>
          [[''en'' \<mapsto> ''OK'', ''fr'' \<mapsto> ''OK''], [''en'' \<mapsto> ''OK'', ''fr'' \<mapsto> ''OK'']]))
     = [0, 0]
   \<and> fst (generateLocalizedFiles_lazy (Inl HostError) [''/work/a.psd'' \<mapsto> [''OK'', ''OK'']]
          \<lparr>path = ''/work'', name = ''a.psd''\<rparr> \<lparr>source = ''en'', target = [''fr'']\<rparr>
          [[''en'' \<mapsto> ''OK'', ''fr'' \<mapsto> ''OK''], [''en'' \<mapsto> ''OK'', ''fr'' \<mapsto> ''OK'']])
     = None
   \<and> findMatchingTextLayer_lazy [''OK'', ''OK''] (Some ''OK'') = Inr 0
   \<and> (0::nat) \<noteq> 1 \<and> [0, 0 :: int] ! 0 \<noteq> - 1 \<and> [0, 0 :: int] ! 0 = [0, 0] ! 1
   \<and> mapTextLayers [''/work/a.psd'' \<mapsto> [''OK'', ''OK'']] (\<lambda>missingText. True)
       \<lparr>path = ''/work'', name = ''a.psd''\<rparr>
       [[''en'' \<mapsto> ''OK'', ''fr'' \<mapsto> ''OK''], [''en'' \<mapsto> ''OK'', ''fr'' \<mapsto> ''OK'']] ''en''
     = Inr (Some [0, 1])"
proof (intro conjI)
  show "fst (snd (generateLocalizedFiles_lazy (Inl HostError) [''/work/a.psd'' \<mapsto> [''OK'', ''OK'']]
          \<lparr>path = ''/work'', name = ''a.psd''\<rparr> \<lparr>source = ''en'', target = [''fr'']\<rparr>
          [[''en'' \<mapsto> ''OK'', ''fr'' \<mapsto> ''OK''], [''en'' \<mapsto> ''OK'', ''fr'' \<mapsto> ''OK'']]))
     = [0, 0]"
    by code_simp
  show "fst (generateLocalizedFiles_lazy (Inl HostError) [''/work/a.psd'' \<mapsto> [''OK'', ''OK'']]
          \<lparr>path = ''/work'', name = ''a.psd''\<rparr> \<lparr>source = ''en'', target = [''fr'']\<rparr>
          [[''en'' \<mapsto> ''OK'', ''fr'' \<mapsto> ''OK''], [''en'' \<mapsto> ''OK'', ''fr'' \<mapsto> ''OK'']])
     = None"
    by code_simp
  show "findMatchingTextLayer_lazy [''OK'', ''OK''] (Some ''OK'') = Inr 0"
    by code_simp
  show "mapTextLayers [''/work/a.psd'' \<mapsto> [''OK'', ''OK'']] (\<lambda>missingText. True)
       \<lparr>path = ''/work'', name = ''a.psd''\<rparr>
       [[''en'' \<mapsto> ''OK'', ''fr'' \<mapsto> ''OK''], [''en'' \<mapsto> ''OK'', ''fr'' \<mapsto> ''OK'']] ''en''
     = Inr (Some [0, 1])"
    by code_simp
qed simp_all

text \<open>
  Claim C2. Where two or more rows have the same source text after whitespace removal,
  the earliest of them (row \<open>i\<close>) claims the first layer with that text; a later one
  (row \<open>j\<close>) either claims a different layer with the same text, and does so whenever
  one is still unclaimed, or receives the sentinel. In particular, when exactly one
  layer has that text, row \<open>i\<close> maps to it and row \<open>j\<close> is unmatched.
\<close>

theorem mapTextLayers_match_duplicate_rows:
  assumes m: "mapTextLayers_match textLayers worksheetData sourceLang
                = Inr (textLayerMap, missingText)"
    and ij: "i < j" and j: "j < length worksheetData"
    and ti: "(worksheetData ! i) sourceLang = Some ti"
    and tj: "(worksheetData ! j) sourceLang = Some tj"
    and same: "replace_WHITESPACE ti = replace_WHITESPACE tj"
    and earliest: "\<forall>h<i. \<forall>th. (worksheetData ! h) sourceLang = Some th
                     \<longrightarrow> replace_WHITESPACE th \<noteq> replace_WHITESPACE ti"
  shows "(\<forall>e<length textLayers.
            replace_WHITESPACE (textLayers ! e) = replace_WHITESPACE ti
            \<and> (\<forall>e'<e. replace_WHITESPACE (textLayers ! e') \<noteq> replace_WHITESPACE ti)
            \<longrightarrow> textLayerMap ! i = int e)
       \<and> (textLayerMap ! j = - 1
            \<or> (\<exists>e<length textLayers. textLayerMap ! j = int e
                  \<and> textLayerMap ! j \<noteq> textLayerMap ! i
                  \<and> replace_WHITESPACE (textLayers ! e) = replace_WHITESPACE tj))
       \<and> ((\<exists>e<length textLayers. replace_WHITESPACE (textLayers ! e) = replace_WHITESPACE tj
                  \<and> int e \<notin> set (take j textLayerMap))
            \<longrightarrow> textLayerMap ! j \<noteq> - 1)
       \<and> (\<forall>e<length textLayers.
            replace_WHITESPACE (textLayers ! e) = replace_WHITESPACE ti
            \<and> (\<forall>e'<length textLayers.
                   replace_WHITESPACE (textLayers ! e') = replace_WHITESPACE ti \<longrightarrow> e' = e)
            \<longrightarrow> textLayerMap ! i = int e \<and> textLayerMap ! j = - 1)"
proof -
  let ?key = "replace_WHITESPACE ti"
  have len: "length textLayerMap = length worksheetData"
    by (rule mapTextLayers_match_nth(1) [OF m])
  have i: "i < length worksheetData" using ij j by simp
  note Ei = mapTextLayers_match_entry [OF m i ti]
  note Ej = mapTextLayers_match_entry [OF m j tj]
  have mem: "textLayerMap ! i \<in> set (take j textLayerMap)"
    using ij j len by (auto simp: in_set_conv_nth intro!: exI [of _ i])
  have free: "int e \<notin> set (take i textLayerMap)"
    if e: "e < length textLayers" "replace_WHITESPACE (textLayers ! e) = ?key" for e
  proof
    assume "int e \<in> set (take i textLayerMap)"
    then obtain h where h: "h < i" "h < length textLayerMap" "textLayerMap ! h = int e"
      by (auto simp: in_set_conv_nth)
    have hr: "h < length worksheetData" using h len by simp
    from mapTextLayers_match_nth(2) [OF m hr] obtain th
      where th: "(worksheetData ! h) sourceLang = Some th" by blast
    from mapTextLayers_match_entry [OF m hr th] h(3)
    have "replace_WHITESPACE (textLayers ! e) = replace_WHITESPACE th" by auto
    with earliest h(1) th e(2) show False by auto
  qed
  have first: "textLayerMap ! i = int e"
    if e: "e < length textLayers" "replace_WHITESPACE (textLayers ! e) = ?key"
      "\<forall>e'<e. replace_WHITESPACE (textLayers ! e') \<noteq> ?key" for e
  proof -
    from Ei show ?thesis
    proof (elim disjE conjE exE)
      assume "\<forall>e<length textLayers. int e \<notin> set (take i textLayerMap)
                \<longrightarrow> replace_WHITESPACE (textLayers ! e) \<noteq> ?key"
      with free [OF e(1,2)] e show ?thesis by blast
    next
      fix e2
      assume e2: "e2 < length textLayers" "textLayerMap ! i = int e2"
        "replace_WHITESPACE (textLayers ! e2) = ?key"
        "\<forall>e'<e2. int e' \<notin> set (take i textLayerMap)
            \<longrightarrow> replace_WHITESPACE (textLayers ! e') \<noteq> ?key"
      have "\<not> e2 < e" using e(3) e2(3) by blast
      moreover have "\<not> e < e2" using e2(4) free [OF e(1,2)] e(2) by blast
      ultimately show ?thesis using e2(2) by simp
    qed
  qed
  have later: "textLayerMap ! j = - 1
            \<or> (\<exists>e<length textLayers. textLayerMap ! j = int e
                  \<and> textLayerMap ! j \<noteq> textLayerMap ! i
                  \<and> replace_WHITESPACE (textLayers ! e) = replace_WHITESPACE tj)"
    using Ej mem by (elim disjE conjE exE) auto
  have claims: "(\<exists>e<length textLayers. replace_WHITESPACE (textLayers ! e) = replace_WHITESPACE tj
                  \<and> int e \<notin> set (take j textLayerMap))
            \<longrightarrow> textLayerMap ! j \<noteq> - 1"
    using Ej by (elim disjE conjE exE) auto
  have only: "textLayerMap ! i = int e \<and> textLayerMap ! j = - 1"
    if e: "e < length textLayers" "replace_WHITESPACE (textLayers ! e) = ?key"
      "\<forall>e'<length textLayers. replace_WHITESPACE (textLayers ! e') = ?key \<longrightarrow> e' = e" for e
  proof -
    have "\<forall>e'<e. replace_WHITESPACE (textLayers ! e') \<noteq> ?key"
    proof (intro allI impI notI)
      fix e' assume lt: "e' < e" and eq: "replace_WHITESPACE (textLayers ! e') = ?key"
      from lt e(1) have "e' < length textLayers" by simp
      with e(3) eq have "e' = e" by blast
      with lt show False by simp
    qed
    from first [OF e(1,2) this] have a: "textLayerMap ! i = int e" .
    from later have "textLayerMap ! j = - 1"
    proof (elim disjE conjE exE)
      fix e2
      assume e2: "e2 < length textLayers" "textLayerMap ! j = int e2"
        "textLayerMap ! j \<noteq> textLayerMap ! i"
        "replace_WHITESPACE (textLayers ! e2) = replace_WHITESPACE tj"
      from e(3) e2(1,4) same have "e2 = e" by simp
      with a e2(2,3) show ?thesis by simp
    qed
    with a show ?thesis by simp
  qed
  show ?thesis
  proof (intro conjI)
    show "\<forall>e<length textLayers.
            replace_WHITESPACE (textLayers ! e) = replace_WHITESPACE ti
            \<and> (\<forall>e'<e. replace_WHITESPACE (textLayers ! e') \<noteq> replace_WHITESPACE ti)
            \<longrightarrow> textLayerMap ! i = int e"
      using first by blast
    show "textLayerMap ! j = - 1
            \<or> (\<exists>e<length textLayers. textLayerMap ! j = int e
                  \<and> textLayerMap ! j \<noteq> textLayerMap ! i
                  \<and> replace_WHITESPACE (textLayers ! e) = replace_WHITESPACE tj)"
      by (rule later)
    show "(\<exists>e<length textLayers. replace_WHITESPACE (textLayers ! e) = replace_WHITESPACE tj
                  \<and> int e \<notin> set (take j textLayerMap))
            \<longrightarrow> textLayerMap ! j \<noteq> - 1"
      by (rule claims)
    show "\<forall>e<length textLayers.
            replace_WHITESPACE (textLayers ! e) = replace_WHITESPACE ti
            \<and> (\<forall>e'<length textLayers.
                   replace_WHITESPACE (textLayers ! e') = replace_WHITESPACE ti \<longrightarrow> e' = e)
            \<longrightarrow> textLayerMap ! i = int e \<and> textLayerMap ! j = - 1"
      using only by blast
  qed
qed

theorem mapTextLayers_match_duplicate_rows_witness:
  "mapTextLayers_match [''Bye'', ''Hello''] [[''en'' \<mapsto> ''Hello''], [''en'' \<mapsto> ''Hel lo'']] ''en''
     = Inr ([1, - 1], [''Hel lo''])
   \<and> (0::nat) < 1 \<and> (1::nat) < length [[''en'' \<mapsto> ''Hello''], [''en'' \<mapsto> ''Hel lo'']]
   \<and> replace_WHITESPACE ''Hello'' = replace_WHITESPACE ''Hel lo''
   \<and> [1, - 1 :: int] ! 0 = int 1 \<and> [1, - 1 :: int] ! 1 = - 1"
proof -
  let ?rows = "[[''en'' \<mapsto> ''Hello''], [''en'' \<mapsto> ''Hel lo'']] :: row list"
  have m: "mapTextLayers_match [''Bye'', ''Hello''] ?rows ''en'' = Inr ([1, - 1], [''Hel lo''])"
    by code_simp
  have h1: "(0::nat) < 1" by simp
  have h2: "(1::nat) < length ?rows" by simp
  have h3: "(?rows ! 0) ''en'' = Some ''Hello''" by simp
  have h4: "(?rows ! 1) ''en'' = Some ''Hel lo''" by simp
  have s: "replace_WHITESPACE ''Hello'' = replace_WHITESPACE ''Hel lo''"
    by code_simp
  have e: "\<forall>h<(0::nat). \<forall>th. (?rows ! h) ''en'' = Some th
             \<longrightarrow> replace_WHITESPACE th \<noteq> replace_WHITESPACE ''Hello''"
    by simp
  have u0: "replace_WHITESPACE ''Bye'' \<noteq> replace_WHITESPACE ''Hello''" by code_simp
  have u: "\<forall>e'<length [''Bye'', ''Hello''].
             replace_WHITESPACE ([''Bye'', ''Hello''] ! e') = replace_WHITESPACE ''Hello''
             \<longrightarrow> e' = 1"
    using u0 by (simp add: less_Suc_eq)
  note dup = mapTextLayers_match_duplicate_rows [OF m h1 h2 h3 h4 s e]
  from dup have "\<forall>e<length [''Bye'', ''Hello''].
            replace_WHITESPACE ([''Bye'', ''Hello''] ! e) = replace_WHITESPACE ''Hello''
            \<and> (\<forall>e'<length [''Bye'', ''Hello''].
                   replace_WHITESPACE ([''Bye'', ''Hello''] ! e') = replace_WHITESPACE ''Hello''
                   \<longrightarrow> e' = e)
            \<longrightarrow> [1, - 1 :: int] ! 0 = int e \<and> [1, - 1 :: int] ! 1 = - 1"
    by (elim conjE)
  then have "1 < length [''Bye'', ''Hello'']
            \<and> replace_WHITESPACE ([''Bye'', ''Hello''] ! 1) = replace_WHITESPACE ''Hello''
            \<and> (\<forall>e'<length [''Bye'', ''Hello''].
                   replace_WHITESPACE ([''Bye'', ''Hello''] ! e') = replace_WHITESPACE ''Hello''
                   \<longrightarrow> e' = 1)
            \<longrightarrow> [1, - 1 :: int] ! 0 = int 1 \<and> [1, - 1 :: int] ! 1 = - 1"
    by blast
  with u have "[1, - 1 :: int] ! 0 = int 1 \<and> [1, - 1 :: int] ! 1 = - 1" by simp
  with m h1 h2 s show ?thesis by (intro conjI) simp_all
qed

text \<open>
  Claim C3. A layer text and a row's source text match exactly when they are equal after
  every whitespace character is deleted from both: on one layer and one row the map is
  \<open>[0]\<close> in that case and \<open>[-1]\<close>, with the row reported missing, otherwise; inserting a
  whitespace character anywhere in a text does not change the text compared; and in
  every run a row mapped to a layer has the layer's text up to whitespace.
\<close>

theorem mapTextLayers_match_whitespace:
  "(row sourceLang = Some rowText \<longrightarrow>
      mapTextLayers_match [layerText] [row] sourceLang
        = Inr (if replace_WHITESPACE layerText = replace_WHITESPACE rowText
               then ([0], []) else ([- 1], [rowText])))
   \<and> (WHITESPACE_REGEX c \<longrightarrow>
        replace_WHITESPACE (xs @ c # ys) = replace_WHITESPACE (xs @ ys))
   \<and> (mapTextLayers_match textLayers worksheetData sourceLang = Inr (textLayerMap, missingText)
        \<and> k < length worksheetData \<and> (worksheetData ! k) sourceLang = Some t
        \<and> e < length textLayers \<and> textLayerMap ! k = int e
      \<longrightarrow> replace_WHITESPACE (textLayers ! e) = replace_WHITESPACE t)"
proof (intro conjI impI)
  assume "row sourceLang = Some rowText"
  then show "mapTextLayers_match [layerText] [row] sourceLang
        = Inr (if replace_WHITESPACE layerText = replace_WHITESPACE rowText
               then ([0], []) else ([- 1], [rowText]))"
    by (rule mapTextLayers_match_single)
next
  assume "WHITESPACE_REGEX c"
  then show "replace_WHITESPACE (xs @ c # ys) = replace_WHITESPACE (xs @ ys)"
    by (rule replace_WHITESPACE_insert)
next
  assume a: "mapTextLayers_match textLayers worksheetData sourceLang = Inr (textLayerMap, missingText)
        \<and> k < length worksheetData \<and> (worksheetData ! k) sourceLang = Some t
        \<and> e < length textLayers \<and> textLayerMap ! k = int e"
  then have m: "mapTextLayers_match textLayers worksheetData sourceLang = Inr (textLayerMap, missingText)"
    and k: "k < length worksheetData" and t: "(worksheetData ! k) sourceLang = Some t"
    and e: "textLayerMap ! k = int e"
    by simp_all
  from mapTextLayers_match_entry [OF m k t] e
  show "replace_WHITESPACE (textLayers ! e) = replace_WHITESPACE t" by auto
qed

theorem mapTextLayers_match_whitespace_witness:
  "[''en'' \<mapsto> ''Good bye''] ''en'' = Some ''Good bye''
   \<and> mapTextLayers_match [[CHR ''G'', CHR ''o'', CHR ''o'', CHR ''d'', CHR 0x09, CHR ''b'', CHR ''y'', CHR ''e'', CHR 0x0A]]
         [[''en'' \<mapsto> ''Good bye'']] ''en'' = Inr ([0], [])
   \<and> mapTextLayers_match [''good bye''] [[''en'' \<mapsto> ''Good bye'']] ''en''
       = Inr ([- 1], [''Good bye''])
   \<and> WHITESPACE_REGEX CHR '' ''
   \<and> replace_WHITESPACE (''Good'' @ CHR '' '' # ''bye'') = replace_WHITESPACE (''Good'' @ ''bye'')
   \<and> mapTextLayers_match [''Hello'', ''Bye ''] [[''en'' \<mapsto> ''Bye'']] ''en'' = Inr ([1], [])
   \<and> (0::nat) < length [[''en'' \<mapsto> ''Bye'']] \<and> (1::nat) < length [''Hello'', ''Bye '']
   \<and> replace_WHITESPACE ([''Hello'', ''Bye ''] ! 1) = replace_WHITESPACE ''Bye''"
proof -
  have r: "[''en'' \<mapsto> ''Good bye''] ''en'' = Some ''Good bye''" by simp
  have w: "WHITESPACE_REGEX CHR '' ''" by code_simp
  have m: "mapTextLayers_match [''Hello'', ''Bye ''] [[''en'' \<mapsto> ''Bye'']] ''en'' = Inr ([1], [])"
    by code_simp
  have s1: "replace_WHITESPACE [CHR ''G'', CHR ''o'', CHR ''o'', CHR ''d'', CHR 0x09, CHR ''b'', CHR ''y'', CHR ''e'', CHR 0x0A]
              = replace_WHITESPACE ''Good bye''"
    by code_simp
  have s2: "replace_WHITESPACE ''good bye'' \<noteq> replace_WHITESPACE ''Good bye''"
    by code_simp
  from mapTextLayers_match_whitespace
         [of "[''en'' \<mapsto> ''Good bye'']" "''en''" "''Good bye''"
             "[CHR ''G'', CHR ''o'', CHR ''o'', CHR ''d'', CHR 0x09, CHR ''b'', CHR ''y'', CHR ''e'', CHR 0x0A]"
             "CHR '' ''" "''Good''" "''bye''"
             "[''Hello'', ''Bye '']" "[[''en'' \<mapsto> ''Bye'']]" "[1]" "[]" 0 "''Bye''" 1]
       mapTextLayers_match_whitespace
         [of "[''en'' \<mapsto> ''Good bye'']" "''en''" "''Good bye''" "''good bye''"
             "CHR '' ''" "''Good''" "''bye''"
             "[''Hello'', ''Bye '']" "[[''en'' \<mapsto> ''Bye'']]" "[1]" "[]" 0 "''Bye''" 1]
       r w m s1 s2
  show ?thesis by simp
qed

text \<open>
  Claim C4. For every sequence of layers and every sequence of rows, the number of
  entries of the map other than the sentinel plus the length of the list of missing
  texts is the number of rows, and the map has one entry per row.
\<close>

theorem mapTextLayers_match_completeness:
  assumes "mapTextLayers_match textLayers worksheetData sourceLang
             = Inr (textLayerMap, missingText)"
  shows "length (filter (\<lambda>layerIndex. layerIndex \<noteq> - 1) textLayerMap) + length missingText
           = length worksheetData
         \<and> length textLayerMap = length worksheetData"
  using mapTextLayers_rows_counts [of worksheetData sourceLang
          "map replace_WHITESPACE textLayers" "map int [0..<length textLayers]" "[]" "[]"
          textLayerMap missingText] assms
  by (simp add: mapTextLayers_match_def)

theorem mapTextLayers_match_completeness_witness:
  "mapTextLayers_match [''Hello'', ''Bye ''] 
       [[''en'' \<mapsto> ''Bye''], [''en'' \<mapsto> ''Thanks''], [''en'' \<mapsto> ''Hello''], [''en'' \<mapsto> ''Bye'']] ''en''
     = Inr ([1, - 1, 0, - 1], [''Thanks'', ''Bye''])
   \<and> length (filter (\<lambda>layerIndex. layerIndex \<noteq> - 1) [1, - 1, 0, - 1 :: int])
        + length [''Thanks'', ''Bye''] = 4
   \<and> length [1, - 1, 0, - 1 :: int] = 4"
proof -
  have m: "mapTextLayers_match [''Hello'', ''Bye ''] 
       [[''en'' \<mapsto> ''Bye''], [''en'' \<mapsto> ''Thanks''], [''en'' \<mapsto> ''Hello''], [''en'' \<mapsto> ''Bye'']] ''en''
     = Inr ([1, - 1, 0, - 1], [''Thanks'', ''Bye''])"
    by code_simp
  from mapTextLayers_match_completeness [OF m] m show ?thesis by simp
qed

section \<open>The state that outlives a call does not reach the result\<close>

lemma regex_exec_None:
  assumes "regex_exec s i = (None, li)"
  shows "li = 0" and "filter (\<lambda>k. WHITESPACE_REGEX (s ! k)) [i..<length s] = []"
proof -
  from assms have f: "List.find (\<lambda>k. WHITESPACE_REGEX (s ! k)) [i..<length s] = None"
    and "li = 0"
    by (auto simp: regex_exec_def split: option.splits)
  then show "li = 0" by simp
  from f have "\<forall>k \<in> set [i..<length s]. \<not> WHITESPACE_REGEX (s ! k)"
    by (simp add: find_None_iff)
  then show "filter (\<lambda>k. WHITESPACE_REGEX (s ! k)) [i..<length s] = []"
    by (simp add: filter_empty_conv)
qed

lemma regex_exec_Some:
  assumes "regex_exec s i = (Some j, li)"
  shows "li = Suc j"
    and "filter (\<lambda>k. WHITESPACE_REGEX (s ! k)) [i..<length s]
           = j # filter (\<lambda>k. WHITESPACE_REGEX (s ! k)) [Suc j..<length s]"
proof -
  let ?P = "\<lambda>k. WHITESPACE_REGEX (s ! k)"
  from assms have f: "List.find ?P [i..<length s] = Some j" and "li = Suc j"
    by (auto simp: regex_exec_def split: option.splits)
  then show "li = Suc j" by simp
  from f obtain n where n: "n < length [i..<length s]" "?P ([i..<length s] ! n)"
    "j = [i..<length s] ! n" "\<forall>m<n. \<not> ?P ([i..<length s] ! m)"
    by (auto simp: find_Some_iff)
  then have j: "j = i + n" "i \<le> j" "j < length s" by simp_all
  have before: "\<forall>k \<in> set [i..<j]. \<not> ?P k"
  proof
    fix k assume "k \<in> set [i..<j]"
    then have k: "i \<le> k" "k < j" by simp_all
    then have "k - i < n" using j by simp
    with n(4) have "\<not> ?P ([i..<length s] ! (k - i))" by blast
    moreover have "[i..<length s] ! (k - i) = k" using k j by simp
    ultimately show "\<not> ?P k" by simp
  qed
  have "[i..<length s] = [i..<j] @ j # [Suc j..<length s]"
    using j by (metis le_add1 less_imp_le_nat upt_add_eq_append upt_conv_Cons le_Suc_ex)
  then have "filter ?P [i..<length s] = filter ?P [i..<j] @ filter ?P (j # [Suc j..<length s])"
    by (metis filter_append)
  also have "filter ?P [i..<j] = []" using before by (simp add: filter_empty_conv)
  also have "filter ?P (j # [Suc j..<length s]) = j # filter ?P [Suc j..<length s]"
    using n(2,3) by simp
  finally show "filter ?P [i..<length s] = j # filter ?P [Suc j..<length s]" by simp
qed

lemma replace_exec_loop_eq:
  "replace_exec_loop s i matches
     = (matches @ filter (\<lambda>k. WHITESPACE_REGEX (s ! k)) [i..<length s], 0)"
proof (induction s i matches rule: replace_exec_loop.induct)
  case (1 s i matches)
  obtain r li where e: "regex_exec s i = (r, li)" by (cases "regex_exec s i")
  show ?case
  proof (cases r)
    case None
    with e regex_exec_None [of s i li] show ?thesis
      by (simp add: replace_exec_loop.simps [of s i])
  next
    case (Some j)
    with e have e': "regex_exec s i = (Some j, li)" by simp
    from "1.IH" [OF e' [symmetric] refl]
    have "replace_exec_loop s li (matches @ [j])
            = ((matches @ [j]) @ filter (\<lambda>k. WHITESPACE_REGEX (s ! k)) [li..<length s], 0)"
      by simp
    with e' regex_exec_Some [OF e'] show ?thesis
      by (simp add: replace_exec_loop.simps [of s i])
  qed
qed

text \<open>Whatever \<^verbatim>\<open>lastIndex\<close> was, \<^verbatim>\<open>replace\<close> deletes every whitespace character and leaves
  \<^verbatim>\<open>lastIndex\<close> at 0.\<close>

lemma replace_WHITESPACE_st_eq:
  "replace_WHITESPACE_st lastIndex s = (replace_WHITESPACE s, 0)"
proof -
  let ?P = "\<lambda>k. WHITESPACE_REGEX (s ! k)"
  have "filter (\<lambda>k. k \<notin> set (filter ?P [0..<length s])) [0..<length s]
          = filter (\<lambda>k. \<not> ?P k) [0..<length s]"
    by (rule filter_cong) auto
  moreover have "map (\<lambda>k. s ! k) (filter (\<lambda>k. \<not> ?P k) [0..<length s])
                   = filter (\<lambda>c. \<not> WHITESPACE_REGEX c) (map (\<lambda>k. s ! k) [0..<length s])"
    by (simp add: filter_map comp_def)
  moreover have "map (\<lambda>k. s ! k) [0..<length s] = s" by (rule map_nth)
  ultimately show ?thesis
    by (simp add: replace_WHITESPACE_st_def replace_exec_loop_eq replace_WHITESPACE_def)
qed

lemma mapTextLayers_pool_st_arrays:
  "st_layerIndices (mapTextLayers_pool_st L i st)
     = st_layerIndices st @ map int [i..<i + length L]
   \<and> st_layerTextStrings (mapTextLayers_pool_st L i st)
     = st_layerTextStrings st @ map replace_WHITESPACE L"
proof (induction L arbitrary: i st)
  case Nil
  then show ?case by simp
next
  case (Cons t L)
  have sp: "map int [i..<i + length (t # L)] = int i # map int [Suc i..<Suc i + length L]"
    by (subst upt_rec) simp
  show ?case
    unfolding sp using Cons.IH
    by (simp add: replace_WHITESPACE_st_eq)
qed

lemma mapTextLayers_rows_st_eq:
  "fst (mapTextLayers_rows_st rows sourceLang tlm mt st)
     = mapTextLayers_rows rows sourceLang (st_layerTextStrings st) (st_layerIndices st) tlm mt"
proof (induction rows arbitrary: tlm mt st)
  case Nil
  then show ?case by simp
next
  case (Cons row rows)
  show ?case
  proof (cases "row sourceLang")
    case None
    then show ?thesis by simp
  next
    case (Some t)
    obtain m ts ixs where
      f: "findMatchingTextLayer (st_layerTextStrings st) (st_layerIndices st)
            (replace_WHITESPACE t) = (m, ts, ixs)"
      by (cases "findMatchingTextLayer (st_layerTextStrings st) (st_layerIndices st)
                   (replace_WHITESPACE t)") auto
    show ?thesis
      using Some f Cons.IH
      by (simp add: replace_WHITESPACE_st_eq findMatchingTextLayer_st_def)
  qed
qed

text \<open>
  Claim C6. The matcher is deterministic. The map and the list of missing texts that
  \<open>mapTextLayers\<close> computes from the layer texts in their enumeration order, the rows in
  their order and the source language do not depend on the state a call finds: not on
  the \<^verbatim>\<open>lastIndex\<close> the shared \<^verbatim>\<open>WHITESPACE_REGEX\<close> was left with, and not on what is left
  of the pool arrays that \<^verbatim>\<open>findMatchingTextLayer\<close> consumes in place. So two runs from any
  two states give the same result, and so does a run that follows any other run.
\<close>

theorem mapTextLayers_match_st_deterministic:
  "fst (mapTextLayers_match_st textLayers worksheetData sourceLang st1)
     = fst (mapTextLayers_match_st textLayers worksheetData sourceLang st2)
   \<and> fst (mapTextLayers_match_st textLayers worksheetData sourceLang
            (snd (mapTextLayers_match_st textLayers0 worksheetData0 sourceLang0 st1)))
     = fst (mapTextLayers_match_st textLayers worksheetData sourceLang st1)
   \<and> fst (mapTextLayers_match_st textLayers worksheetData sourceLang st1)
     = mapTextLayers_match textLayers worksheetData sourceLang"
proof -
  have run: "fst (mapTextLayers_match_st L rows lang st) = mapTextLayers_match L rows lang"
    for L rows lang st
  proof -
    let ?st = "mapTextLayers_pool_st L 0 (st\<lparr>st_layerIndices := [], st_layerTextStrings := []\<rparr>)"
    from mapTextLayers_pool_st_arrays
           [of L 0 "st\<lparr>st_layerIndices := [], st_layerTextStrings := []\<rparr>"]
    have pool: "st_layerIndices ?st = map int [0..<length L]"
      "st_layerTextStrings ?st = map replace_WHITESPACE L"
      by simp_all
    have "fst (mapTextLayers_match_st L rows lang st)
            = mapTextLayers_rows rows lang (st_layerTextStrings ?st) (st_layerIndices ?st) [] []"
      unfolding mapTextLayers_match_st_def by (rule mapTextLayers_rows_st_eq)
    also have "\<dots> = mapTextLayers_match L rows lang"
      unfolding pool by (simp add: mapTextLayers_match_def)
    finally show ?thesis .
  qed
  show ?thesis by (simp only: run simp_thms)
qed

theorem mapTextLayers_match_st_deterministic_witness:
  "mapTextLayers_match_st [''Hello'', ''Bye ''] [[''en'' \<mapsto> ''B ye''], [''en'' \<mapsto> ''Thanks'']] ''en''
       \<lparr>st_lastIndex = 0, st_layerIndices = [], st_layerTextStrings = []\<rparr>
     = (Inr ([1, - 1], [''Thanks'']),
        \<lparr>st_lastIndex = 0, st_layerIndices = [0], st_layerTextStrings = [''Hello'']\<rparr>)
   \<and> fst (mapTextLayers_match_st [''Hello'', ''Bye '']
            [[''en'' \<mapsto> ''B ye''], [''en'' \<mapsto> ''Thanks'']] ''en''
            \<lparr>st_lastIndex = 3, st_layerIndices = [0], st_layerTextStrings = [''Hello'']\<rparr>)
     = Inr ([1, - 1], [''Thanks''])"
proof -
  let ?rows = "[[''en'' \<mapsto> ''B ye''], [''en'' \<mapsto> ''Thanks'']] :: row list"
  let ?st1 = "\<lparr>st_lastIndex = 0, st_layerIndices = [], st_layerTextStrings = []\<rparr>"
  let ?st2 = "\<lparr>st_lastIndex = 3, st_layerIndices = [0], st_layerTextStrings = [''Hello'']\<rparr>"
  have r: "mapTextLayers_match_st [''Hello'', ''Bye ''] ?rows ''en'' ?st1
             = (Inr ([1, - 1], [''Thanks'']),
                \<lparr>st_lastIndex = 0, st_layerIndices = [0], st_layerTextStrings = [''Hello'']\<rparr>)"
    by code_simp
  from mapTextLayers_match_st_deterministic
         [where textLayers = "[''Hello'', ''Bye '']" and worksheetData = ?rows
            and sourceLang = "''en''" and ?st1.0 = ?st1 and ?st2.0 = ?st2]
  have "fst (mapTextLayers_match_st [''Hello'', ''Bye ''] ?rows ''en'' ?st1)
          = fst (mapTextLayers_match_st [''Hello'', ''Bye ''] ?rows ''en'' ?st2)"
    by blast
  with r show ?thesis by simp
qed

section \<open>Properties of the variant generator\<close>

lemma setLayerText_frame:
  assumes "setLayerText hostUndefined textLayers layerIndex newText = Inr textLayers'"
  shows "length textLayers' = length textLayers"
    and "e < length textLayers \<Longrightarrow> int e \<noteq> layerIndex \<Longrightarrow> textLayers' ! e = textLayers ! e"
  using assms
  by (auto simp: setLayerText_def split: if_splits option.splits sum.splits)

lemma generateLocalizedFiles_rows_frame:
  "generateLocalizedFiles_rows hostUndefined rows textLayerMap currentLang textLayers
     = Inr textLayers'
   \<Longrightarrow> length textLayers' = length textLayers
       \<and> (\<forall>e<length textLayers. int e \<notin> set (take (length rows) textLayerMap)
             \<longrightarrow> textLayers' ! e = textLayers ! e)"
proof (induction hostUndefined rows textLayerMap currentLang textLayers
         rule: generateLocalizedFiles_rows.induct)
  case (1 hostUndefined textLayerMap currentLang textLayers)
  then show ?case by simp
next
  case (2 hostUndefined row rows currentLang textLayers)
  then show ?case by simp
next
  case (3 hostUndefined row rows layerIndex textLayerMap currentLang textLayers)
  show ?case
  proof (cases "layerIndex \<noteq> - 1")
    case False
    with "3.prems" have "generateLocalizedFiles_rows hostUndefined rows textLayerMap currentLang
                           textLayers = Inr textLayers'"
      by simp
    from "3.IH"(2) [OF False this] show ?thesis by simp
  next
    case True
    with "3.prems" obtain mid
      where s: "setLayerText hostUndefined textLayers layerIndex (row currentLang) = Inr mid"
        and r: "generateLocalizedFiles_rows hostUndefined rows textLayerMap currentLang mid
                  = Inr textLayers'"
      by (auto split: sum.splits)
    note f = setLayerText_frame [OF s]
    from "3.IH"(1) [OF True s r] f show ?thesis by auto
  qed
qed

lemma generateLocalizedFiles_rows_skip:
  "length rows \<le> length textLayerMap \<Longrightarrow>
   generateLocalizedFiles_rows hostUndefined rows textLayerMap currentLang textLayers
     = generateLocalizedFiles_rows hostUndefined
         (map fst (filter (\<lambda>(row, layerIndex). layerIndex \<noteq> - 1) (zip rows textLayerMap)))
         (map snd (filter (\<lambda>(row, layerIndex). layerIndex \<noteq> - 1) (zip rows textLayerMap)))
         currentLang textLayers"
proof (induction hostUndefined rows textLayerMap currentLang textLayers
         rule: generateLocalizedFiles_rows.induct)
  case (3 hostUndefined row rows layerIndex textLayerMap currentLang textLayers)
  then show ?case by (auto split: sum.splits)
qed simp_all

lemma generateLocalizedFiles_rows_all_sentinel:
  "length rows \<le> length textLayerMap \<Longrightarrow>
   \<forall>layerIndex \<in> set (take (length rows) textLayerMap). layerIndex = - 1 \<Longrightarrow>
   generateLocalizedFiles_rows hostUndefined rows textLayerMap currentLang textLayers
     = Inr textLayers"
  by (induction hostUndefined rows textLayerMap currentLang textLayers
        rule: generateLocalizedFiles_rows.induct) simp_all

lemma targetFile_differs:
  "path ccFile @ ''/'' @ generateTargetFilename (name ccFile) currentLang \<noteq> fullName ccFile"
  using generateTargetFilename_differs [of "name ccFile" currentLang]
  by (simp add: fullName_def)

lemma file_copy_other: "p \<noteq> dst \<Longrightarrow> file_copy fs src dst p = fs p"
  by (simp add: file_copy_def split: option.splits)

lemma doc_save_other: "p \<noteq> f \<Longrightarrow> doc_save fs f doc p = fs p"
  by (simp add: doc_save_def)

lemma generateLocalizedFiles_langs_frame:
  "p \<notin> (\<lambda>lang. path ccFile @ ''/'' @ generateTargetFilename (name ccFile) lang) ` set langs
   \<Longrightarrow> snd (generateLocalizedFiles_langs hostUndefined fs ccFile langs worksheetData textLayerMap) p
         = fs p"
proof (induction langs arbitrary: fs)
  case Nil
  then show ?case by simp
next
  case (Cons currentLang langs)
  let ?tgt = "path ccFile @ ''/'' @ generateTargetFilename (name ccFile) currentLang"
  let ?fs1 = "file_copy fs (fullName ccFile) ?tgt"
  from Cons.prems have ne: "p \<noteq> ?tgt"
    and rest: "p \<notin> (\<lambda>lang. path ccFile @ ''/'' @ generateTargetFilename (name ccFile) lang) ` set langs"
    by auto
  have c: "?fs1 p = fs p" using ne by (rule file_copy_other)
  have s: "doc_save ?fs1 ?tgt doc p = fs p" for doc
    using ne c by (simp add: doc_save_other)
  show ?case
    using c s Cons.IH [OF rest]
    by (simp add: Let_def split: sum.splits)
qed

lemma generateLocalizedFiles_langs_source:
  "snd (generateLocalizedFiles_langs hostUndefined fs ccFile langs worksheetData textLayerMap)
     (fullName ccFile) = fs (fullName ccFile)"
proof (rule generateLocalizedFiles_langs_frame)
  show "fullName ccFile
          \<notin> (\<lambda>lang. path ccFile @ ''/'' @ generateTargetFilename (name ccFile) lang) ` set langs"
  proof
    assume "fullName ccFile
          \<in> (\<lambda>lang. path ccFile @ ''/'' @ generateTargetFilename (name ccFile) lang) ` set langs"
    then obtain lang
      where "fullName ccFile = path ccFile @ ''/'' @ generateTargetFilename (name ccFile) lang"
      by blast
    with targetFile_differs [of ccFile lang] show False by simp
  qed
qed

lemma generateLocalizedFiles_langs_all_sentinel:
  assumes src: "fs (fullName ccFile) = Some textLayers"
    and len: "length worksheetData \<le> length textLayerMap"
    and all: "\<forall>layerIndex \<in> set (take (length worksheetData) textLayerMap). layerIndex = - 1"
  shows "generateLocalizedFiles_langs hostUndefined fs ccFile langs worksheetData textLayerMap
           = (None, \<lambda>p. if p \<in> (\<lambda>lang. path ccFile @ ''/''
                                     @ generateTargetFilename (name ccFile) lang) ` set langs
                          then Some textLayers else fs p)"
  using src
proof (induction langs arbitrary: fs)
  case Nil
  then show ?case by simp
next
  case (Cons currentLang langs)
  let ?tgt = "path ccFile @ ''/'' @ generateTargetFilename (name ccFile) currentLang"
  let ?fs1 = "file_copy fs (fullName ccFile) ?tgt"
  have fs1: "?fs1 = fs(?tgt \<mapsto> textLayers)"
    using Cons.prems by (simp add: file_copy_def)
  have op: "app_open ?fs1 ?tgt = Inr textLayers"
    unfolding fs1 by (simp add: app_open_def)
  have sv: "doc_save ?fs1 ?tgt textLayers = ?fs1"
    unfolding fs1 by (simp add: doc_save_def)
  have src1: "?fs1 (fullName ccFile) = Some textLayers"
    using Cons.prems targetFile_differs [of ccFile currentLang]
    by (simp add: file_copy_other)
  have "generateLocalizedFiles_langs hostUndefined fs ccFile (currentLang # langs) worksheetData
          textLayerMap
        = generateLocalizedFiles_langs hostUndefined ?fs1 ccFile langs worksheetData textLayerMap"
    using op sv generateLocalizedFiles_rows_all_sentinel [OF len all]
    by (simp add: Let_def)
  also have "\<dots> = (None, \<lambda>p. if p \<in> (\<lambda>lang. path ccFile @ ''/''
                                     @ generateTargetFilename (name ccFile) lang) ` set langs
                          then Some textLayers else ?fs1 p)"
    by (rule Cons.IH [of ?fs1, OF src1])
  also have "\<dots> = (None, \<lambda>p. if p \<in> (\<lambda>lang. path ccFile @ ''/''
                                     @ generateTargetFilename (name ccFile) lang) ` set (currentLang # langs)
                          then Some textLayers else fs p)"
    unfolding fs1 by (auto simp: fun_eq_iff)
  finally show ?case .
qed

lemma generateLocalizedFiles_lazy_rows_frame:
  "generateLocalizedFiles_lazy_rows hostUndefined rows dataRow sourceLang currentLang
       dataLayerIndices textLayers = Inr (dataLayerIndices', textLayers')
   \<Longrightarrow> set dataLayerIndices \<subseteq> set dataLayerIndices'
       \<and> length textLayers' = length textLayers
       \<and> (\<forall>e<length textLayers. int e \<notin> set dataLayerIndices'
             \<longrightarrow> textLayers' ! e = textLayers ! e)"
proof (induction rows arbitrary: dataRow dataLayerIndices textLayers)
  case Nil
  then show ?case by simp
next
  case (Cons row rows)
  from Cons.prems obtain dli where
    dli: "(if length dataLayerIndices < dataRow + 1 then
              (case findMatchingTextLayer_lazy textLayers (row sourceLang) of
                 Inl e \<Rightarrow> Inl e
               | Inr matchingLayerIndex \<Rightarrow> Inr (dataLayerIndices @ [matchingLayerIndex]))
            else Inr dataLayerIndices) = Inr dli"
    by (auto split: sum.splits)
  then have sub: "set dataLayerIndices \<subseteq> set dli"
    by (auto split: if_splits sum.splits)
  from Cons.prems dli have lt: "dataRow < length dli"
    by (auto split: if_splits)
  then have mem: "dli ! dataRow \<in> set dli" by simp
  show ?case
  proof (cases "dli ! dataRow \<noteq> - 1")
    case False
    with Cons.prems dli lt
    have "generateLocalizedFiles_lazy_rows hostUndefined rows (Suc dataRow) sourceLang currentLang
            dli textLayers = Inr (dataLayerIndices', textLayers')"
      by (simp add: Let_def)
    from Cons.IH [OF this] sub show ?thesis by auto
  next
    case True
    with Cons.prems dli lt obtain mid where
      s: "setLayerText hostUndefined textLayers (dli ! dataRow) (row currentLang) = Inr mid"
      and r: "generateLocalizedFiles_lazy_rows hostUndefined rows (Suc dataRow) sourceLang
                currentLang dli mid = Inr (dataLayerIndices', textLayers')"
      by (auto simp: Let_def split: sum.splits)
    note f = setLayerText_frame [OF s]
    from Cons.IH [OF r] have ih: "set dli \<subseteq> set dataLayerIndices'"
      "length textLayers' = length mid"
      "\<forall>e<length mid. int e \<notin> set dataLayerIndices' \<longrightarrow> textLayers' ! e = mid ! e"
      by simp_all
    have "textLayers' ! e = textLayers ! e"
      if e: "e < length textLayers" "int e \<notin> set dataLayerIndices'" for e
    proof -
      from e(2) ih(1) mem have "int e \<noteq> dli ! dataRow" by auto
      with f(2) e(1) have "mid ! e = textLayers ! e" by simp
      moreover from ih(3) e f(1) have "textLayers' ! e = mid ! e" by simp
      ultimately show ?thesis by simp
    qed
    with sub ih(1,2) f(1) show ?thesis by auto
  qed
qed

text \<open>
  Claim C5. For every map and every target language, the variant generator writes text
  only at layer indices held in entries of the map, and skips every row whose entry is
  the sentinel: the row loop leaves every other layer as it was, and it does what it
  does on the rows with a non-sentinel entry alone. When the entries of the map are all
  the sentinel, the row loop returns the layer texts unchanged, and every variant saved
  holds the texts of the template. The row loop of the earlier script, which extends
  its map as it goes, likewise leaves every layer whose index is not in its map as it
  was.
\<close>

theorem generateLocalizedFiles_writes_only_mapped:
  "(generateLocalizedFiles_rows hostUndefined worksheetData textLayerMap currentLang textLayers
      = Inr textLayers'
    \<longrightarrow> length textLayers' = length textLayers
        \<and> (\<forall>e<length textLayers. int e \<notin> set (take (length worksheetData) textLayerMap)
              \<longrightarrow> textLayers' ! e = textLayers ! e))
   \<and> (length worksheetData \<le> length textLayerMap
    \<longrightarrow> generateLocalizedFiles_rows hostUndefined worksheetData textLayerMap currentLang textLayers
        = generateLocalizedFiles_rows hostUndefined
            (map fst (filter (\<lambda>(row, layerIndex). layerIndex \<noteq> - 1)
                        (zip worksheetData textLayerMap)))
            (map snd (filter (\<lambda>(row, layerIndex). layerIndex \<noteq> - 1)
                        (zip worksheetData textLayerMap)))
            currentLang textLayers)
   \<and> (length worksheetData \<le> length textLayerMap
        \<and> (\<forall>layerIndex \<in> set (take (length worksheetData) textLayerMap). layerIndex = - 1)
    \<longrightarrow> generateLocalizedFiles_rows hostUndefined worksheetData textLayerMap currentLang textLayers
          = Inr textLayers
        \<and> (fs (fullName ccFile) = Some textLayers \<and> currentLang \<in> set (target selectedLanguages)
            \<longrightarrow> fst (generateLocalizedFiles hostUndefined fs ccFile selectedLanguages
                       worksheetData textLayerMap) = None
                \<and> snd (generateLocalizedFiles hostUndefined fs ccFile selectedLanguages
                       worksheetData textLayerMap)
                    (path ccFile @ ''/'' @ generateTargetFilename (name ccFile) currentLang)
                  = Some textLayers))
   \<and> (generateLocalizedFiles_lazy_rows hostUndefined worksheetData dataRow sourceLang
          currentLang dataLayerIndices textLayers = Inr (dataLayerIndices', textLayers'')
    \<longrightarrow> length textLayers'' = length textLayers
        \<and> (\<forall>e<length textLayers. int e \<notin> set dataLayerIndices'
              \<longrightarrow> textLayers'' ! e = textLayers ! e))"
proof (intro conjI impI)
  assume "generateLocalizedFiles_rows hostUndefined worksheetData textLayerMap currentLang
            textLayers = Inr textLayers'"
  from generateLocalizedFiles_rows_frame [OF this]
  show "length textLayers' = length textLayers"
    and "\<forall>e<length textLayers. int e \<notin> set (take (length worksheetData) textLayerMap)
              \<longrightarrow> textLayers' ! e = textLayers ! e"
    by simp_all
next
  assume "length worksheetData \<le> length textLayerMap"
  then show "generateLocalizedFiles_rows hostUndefined worksheetData textLayerMap currentLang textLayers
        = generateLocalizedFiles_rows hostUndefined
            (map fst (filter (\<lambda>(row, layerIndex). layerIndex \<noteq> - 1)
                        (zip worksheetData textLayerMap)))
            (map snd (filter (\<lambda>(row, layerIndex). layerIndex \<noteq> - 1)
                        (zip worksheetData textLayerMap)))
            currentLang textLayers"
    by (rule generateLocalizedFiles_rows_skip)
next
  assume a: "length worksheetData \<le> length textLayerMap
        \<and> (\<forall>layerIndex \<in> set (take (length worksheetData) textLayerMap). layerIndex = - 1)"
  then show "generateLocalizedFiles_rows hostUndefined worksheetData textLayerMap currentLang
               textLayers = Inr textLayers"
    by (intro generateLocalizedFiles_rows_all_sentinel) simp_all
next
  assume a: "length worksheetData \<le> length textLayerMap
        \<and> (\<forall>layerIndex \<in> set (take (length worksheetData) textLayerMap). layerIndex = - 1)"
    and b: "fs (fullName ccFile) = Some textLayers \<and> currentLang \<in> set (target selectedLanguages)"
  from a have len: "length worksheetData \<le> length textLayerMap"
    and all: "\<forall>layerIndex \<in> set (take (length worksheetData) textLayerMap). layerIndex = - 1"
    by simp_all
  from b have src: "fs (fullName ccFile) = Some textLayers"
    and lang: "currentLang \<in> set (target selectedLanguages)"
    by simp_all
  note g = generateLocalizedFiles_langs_all_sentinel
             [where fs = fs and ccFile = ccFile and textLayers = textLayers
                and worksheetData = worksheetData and textLayerMap = textLayerMap
                and hostUndefined = hostUndefined and langs = "target selectedLanguages",
              OF src len all]
  show "fst (generateLocalizedFiles hostUndefined fs ccFile selectedLanguages
               worksheetData textLayerMap) = None"
    unfolding generateLocalizedFiles_def g by simp
  show "snd (generateLocalizedFiles hostUndefined fs ccFile selectedLanguages
               worksheetData textLayerMap)
          (path ccFile @ ''/'' @ generateTargetFilename (name ccFile) currentLang)
        = Some textLayers"
    unfolding generateLocalizedFiles_def g using lang by simp
next
  assume "generateLocalizedFiles_lazy_rows hostUndefined worksheetData dataRow sourceLang
            currentLang dataLayerIndices textLayers = Inr (dataLayerIndices', textLayers'')"
  from generateLocalizedFiles_lazy_rows_frame [OF this]
  show "length textLayers'' = length textLayers"
    and "\<forall>e<length textLayers. int e \<notin> set dataLayerIndices'
              \<longrightarrow> textLayers'' ! e = textLayers ! e"
    by simp_all
qed

theorem generateLocalizedFiles_writes_only_mapped_witness:
  "generateLocalizedFiles_rows (Inl HostError)
       [[''en'' \<mapsto> ''Bye'', ''fr'' \<mapsto> ''Au revoir''], [''en'' \<mapsto> ''Thanks'', ''fr'' \<mapsto> ''Merci'']]
       [1, - 1] ''fr'' [''Hello'', ''Bye '', ''Logo'']
     = Inr [''Hello'', ''Au revoir'', ''Logo'']
   \<and> int 2 \<notin> set (take 2 [1, - 1])
   \<and> [''Hello'', ''Au revoir'', ''Logo''] ! 2 = [''Hello'', ''Bye '', ''Logo''] ! 2
   \<and> generateLocalizedFiles_rows (Inl HostError)
       [[''en'' \<mapsto> ''Bye'', ''fr'' \<mapsto> ''Au revoir''], [''en'' \<mapsto> ''Thanks'', ''fr'' \<mapsto> ''Merci'']]
       [- 1, - 1] ''fr'' [''Hello'', ''Bye '', ''Logo'']
     = Inr [''Hello'', ''Bye '', ''Logo'']
   \<and> snd (generateLocalizedFiles (Inl HostError)
             [''/work/poster.psd'' \<mapsto> [''Hello'', ''Bye '', ''Logo'']]
             \<lparr>path = ''/work'', name = ''poster.psd''\<rparr> \<lparr>source = ''en'', target = [''fr'', ''de'']\<rparr>
             [[''en'' \<mapsto> ''Bye'', ''fr'' \<mapsto> ''Au revoir''], [''en'' \<mapsto> ''Thanks'', ''fr'' \<mapsto> ''Merci'']]
             [- 1, - 1])
        (''/work'' @ ''/'' @ generateTargetFilename ''poster.psd'' ''fr'')
      = Some [''Hello'', ''Bye '', ''Logo'']
   \<and> generateLocalizedFiles_lazy_rows (Inl HostError)
       [[''en'' \<mapsto> ''Bye'', ''fr'' \<mapsto> ''Au revoir''], [''en'' \<mapsto> ''Thanks'', ''fr'' \<mapsto> ''Merci'']]
       0 ''en'' ''fr'' [] [''Hello'', ''Bye '', ''Logo'']
     = Inr ([1, - 1], [''Hello'', ''Au revoir'', ''Logo''])
   \<and> int 0 \<notin> set [1, - 1]
   \<and> [''Hello'', ''Au revoir'', ''Logo''] ! 0 = [''Hello'', ''Bye '', ''Logo''] ! 0"
proof -
  let ?rows = "[[''en'' \<mapsto> ''Bye'', ''fr'' \<mapsto> ''Au revoir''],
                [''en'' \<mapsto> ''Thanks'', ''fr'' \<mapsto> ''Merci'']] :: row list"
  let ?doc = "[''Hello'', ''Bye '', ''Logo'']"
  let ?cc = "\<lparr>path = ''/work'', name = ''poster.psd''\<rparr>"
  let ?sel = "\<lparr>source = ''en'', target = [''fr'', ''de'']\<rparr>"
  let ?fs = "[''/work/poster.psd'' \<mapsto> ?doc]"
  have r: "generateLocalizedFiles_rows (Inl HostError) ?rows [1, - 1] ''fr'' ?doc
             = Inr [''Hello'', ''Au revoir'', ''Logo'']"
    by code_simp
  have n: "int 2 \<notin> set (take (length ?rows) [1, - 1])" by simp
  have l: "length ?rows \<le> length [- 1, - 1 :: int]
            \<and> (\<forall>layerIndex \<in> set (take (length ?rows) [- 1, - 1 :: int]). layerIndex = - 1)"
    by simp
  have s: "?fs (fullName ?cc) = Some ?doc \<and> ''fr'' \<in> set (target ?sel)"
    by (simp add: fullName_def)
  note w1 = generateLocalizedFiles_writes_only_mapped
              [where hostUndefined = "Inl HostError" and worksheetData = ?rows
                 and textLayerMap = "[1, - 1]" and currentLang = "''fr''" and textLayers = ?doc
                 and textLayers' = "[''Hello'', ''Au revoir'', ''Logo'']"]
  note w2 = generateLocalizedFiles_writes_only_mapped
              [where hostUndefined = "Inl HostError" and worksheetData = ?rows
                 and textLayerMap = "[- 1, - 1]" and currentLang = "''fr''" and textLayers = ?doc
                 and fs = ?fs and ccFile = ?cc and selectedLanguages = ?sel]
  from w1 r have "\<forall>e<length ?doc. int e \<notin> set (take (length ?rows) [1, - 1])
              \<longrightarrow> [''Hello'', ''Au revoir'', ''Logo''] ! e = ?doc ! e"
    by blast
  then have a: "[''Hello'', ''Au revoir'', ''Logo''] ! 2 = ?doc ! 2"
    using n by simp
  from w2 l have b: "generateLocalizedFiles_rows (Inl HostError) ?rows [- 1, - 1] ''fr'' ?doc
                       = Inr ?doc"
    by blast
  from w2 l s have c: "snd (generateLocalizedFiles (Inl HostError) ?fs ?cc ?sel ?rows [- 1, - 1])
        (path ?cc @ ''/'' @ generateTargetFilename (name ?cc) ''fr'') = Some ?doc"
    by blast
  have z: "generateLocalizedFiles_lazy_rows (Inl HostError) ?rows 0 ''en'' ''fr'' [] ?doc
             = Inr ([1, - 1], [''Hello'', ''Au revoir'', ''Logo''])"
    by code_simp
  note w3 = generateLocalizedFiles_writes_only_mapped
              [where hostUndefined = "Inl HostError" and worksheetData = ?rows
                 and dataRow = 0 and sourceLang = "''en''" and currentLang = "''fr''"
                 and dataLayerIndices = "[]" and textLayers = ?doc
                 and dataLayerIndices' = "[1, - 1]"
                 and textLayers'' = "[''Hello'', ''Au revoir'', ''Logo'']"]
  from w3 z have "\<forall>e<length ?doc. int e \<notin> set [1, - 1]
              \<longrightarrow> [''Hello'', ''Au revoir'', ''Logo''] ! e = ?doc ! e"
    by blast
  then have d: "[''Hello'', ''Au revoir'', ''Logo''] ! 0 = ?doc ! 0"
    by simp
  from r n a b c z d show ?thesis by simp
qed

text \<open>
  Claim C7. The source document is never changed. \<open>mapTextLayers\<close> only reads the store;
  \<open>generateLocalizedFiles\<close>, whatever the map and however it ends, leaves the document
  saved at the source path as it was; every path whose content it changes is the path of
  a target file, and no target file is the source file. So the run as a whole leaves the
  source document as it was.
\<close>

theorem source_document_never_mutated:
  "snd (generateLocalizedFiles hostUndefined fs ccFile selectedLanguages worksheetData textLayerMap)
       (fullName ccFile) = fs (fullName ccFile)
   \<and> (\<forall>p. snd (generateLocalizedFiles hostUndefined fs ccFile selectedLanguages worksheetData
                  textLayerMap) p \<noteq> fs p
          \<longrightarrow> p \<in> (\<lambda>lang. path ccFile @ ''/'' @ generateTargetFilename (name ccFile) lang)
                     ` set (target selectedLanguages)
              \<and> p \<noteq> fullName ccFile)
   \<and> main_localize hostUndefined fs confirm ccFile selectedLanguages worksheetData (fullName ccFile)
       = fs (fullName ccFile)"
proof (intro conjI allI impI)
  show src: "snd (generateLocalizedFiles hostUndefined fs ccFile selectedLanguages worksheetData
                textLayerMap) (fullName ccFile) = fs (fullName ccFile)"
    for textLayerMap
    unfolding generateLocalizedFiles_def by (rule generateLocalizedFiles_langs_source)
  show "main_localize hostUndefined fs confirm ccFile selectedLanguages worksheetData
          (fullName ccFile) = fs (fullName ccFile)"
    by (simp add: main_localize_def src split: sum.splits option.splits)
next
  fix p
  assume ch: "snd (generateLocalizedFiles hostUndefined fs ccFile selectedLanguages worksheetData
                  textLayerMap) p \<noteq> fs p"
  show "p \<in> (\<lambda>lang. path ccFile @ ''/'' @ generateTargetFilename (name ccFile) lang)
                     ` set (target selectedLanguages)"
  proof (rule ccontr)
    assume "p \<notin> (\<lambda>lang. path ccFile @ ''/'' @ generateTargetFilename (name ccFile) lang)
                     ` set (target selectedLanguages)"
    from generateLocalizedFiles_langs_frame [OF this] ch show False
      by (simp add: generateLocalizedFiles_def)
  qed
  show "p \<noteq> fullName ccFile"
    using ch generateLocalizedFiles_langs_source [of hostUndefined fs ccFile
                 "target selectedLanguages" worksheetData textLayerMap]
    by (auto simp: generateLocalizedFiles_def)
qed

theorem source_document_never_mutated_witness:
  "snd (generateLocalizedFiles (Inl HostError) [''/work/poster.psd'' \<mapsto> [''Hello'', ''Bye '']]
          \<lparr>path = ''/work'', name = ''poster.psd''\<rparr> \<lparr>source = ''en'', target = [''fr'']\<rparr>
          [[''en'' \<mapsto> ''Hello'', ''fr'' \<mapsto> ''Bonjour''], [''en'' \<mapsto> ''Bye'', ''fr'' \<mapsto> ''Au revoir'']]
          [0, 1]) ''/work/poster_fr.psd''
     = Some [''Bonjour'', ''Au revoir'']
   \<and> [''/work/poster.psd'' \<mapsto> [''Hello'', ''Bye '']] ''/work/poster_fr.psd'' = None
   \<and> ''/work/poster_fr.psd''
       \<in> (\<lambda>lang. ''/work'' @ ''/'' @ generateTargetFilename ''poster.psd'' lang) ` set [''fr'']
   \<and> ''/work/poster_fr.psd'' \<noteq> fullName \<lparr>path = ''/work'', name = ''poster.psd''\<rparr>
   \<and> snd (generateLocalizedFiles (Inl HostError) [''/work/poster.psd'' \<mapsto> [''Hello'', ''Bye '']]
          \<lparr>path = ''/work'', name = ''poster.psd''\<rparr> \<lparr>source = ''en'', target = [''fr'']\<rparr>
          [[''en'' \<mapsto> ''Hello'', ''fr'' \<mapsto> ''Bonjour''], [''en'' \<mapsto> ''Bye'', ''fr'' \<mapsto> ''Au revoir'']]
          [0, 1]) ''/work/poster.psd''
     = Some [''Hello'', ''Bye '']"
proof -
  let ?rows = "[[''en'' \<mapsto> ''Hello'', ''fr'' \<mapsto> ''Bonjour''],
                [''en'' \<mapsto> ''Bye'', ''fr'' \<mapsto> ''Au revoir'']] :: row list"
  let ?cc = "\<lparr>path = ''/work'', name = ''poster.psd''\<rparr>"
  let ?sel = "\<lparr>source = ''en'', target = [''fr'']\<rparr>"
  let ?fs = "[''/work/poster.psd'' \<mapsto> [''Hello'', ''Bye '']]"
  let ?out = "snd (generateLocalizedFiles (Inl HostError) ?fs ?cc ?sel ?rows [0, 1])"
  have v: "?out ''/work/poster_fr.psd'' = Some [''Bonjour'', ''Au revoir'']"
    by code_simp
  have o: "?fs ''/work/poster_fr.psd'' = None" by simp
  have f: "fullName ?cc = ''/work/poster.psd''" by (simp add: fullName_def)
  note w = source_document_never_mutated
             [where hostUndefined = "Inl HostError" and fs = ?fs and ccFile = ?cc
                and selectedLanguages = ?sel and worksheetData = ?rows and textLayerMap = "[0, 1]"]
  from w have "?out ''/work/poster_fr.psd'' \<noteq> ?fs ''/work/poster_fr.psd''
          \<longrightarrow> ''/work/poster_fr.psd''
                \<in> (\<lambda>lang. path ?cc @ ''/'' @ generateTargetFilename (name ?cc) lang)
                     ` set (target ?sel)
              \<and> ''/work/poster_fr.psd'' \<noteq> fullName ?cc"
    by blast
  moreover have "?out ''/work/poster_fr.psd'' \<noteq> ?fs ''/work/poster_fr.psd''"
    unfolding v o by simp
  ultimately have a: "''/work/poster_fr.psd''
                \<in> (\<lambda>lang. path ?cc @ ''/'' @ generateTargetFilename (name ?cc) lang)
                     ` set (target ?sel)
              \<and> ''/work/poster_fr.psd'' \<noteq> fullName ?cc"
    by (rule mp)
  from w have "?out (fullName ?cc) = ?fs (fullName ?cc)" by blast
  then have b: "?out ''/work/poster.psd'' = Some [''Hello'', ''Bye '']"
    unfolding f by simp
  have g: "generateTargetFilename ''poster.psd'' ''fr'' = ''poster_fr.psd''"
    by (simp add: generateTargetFilename_def)
  from v o a b show ?thesis by (simp add: f g)
qed

section \<open>The earlier script against the current one\<close>

lemma findMatchingTextLayer_lazy_loop_cases:
  "(findMatchingTextLayer_lazy_loop d (Some t) i = Inr (- 1)
      \<and> (\<forall>j. i \<le> j \<and> j < length d \<longrightarrow> replace_WHITESPACE (d ! j) \<noteq> replace_WHITESPACE t))
   \<or> (\<exists>j. i \<le> j \<and> j < length d \<and> replace_WHITESPACE (d ! j) = replace_WHITESPACE t
          \<and> (\<forall>k. i \<le> k \<and> k < j \<longrightarrow> replace_WHITESPACE (d ! k) \<noteq> replace_WHITESPACE t)
          \<and> findMatchingTextLayer_lazy_loop d (Some t) i = Inr (int j))"
proof (induction d "Some t" i rule: findMatchingTextLayer_lazy_loop.induct)
  case (1 d i)
  show ?case
  proof (cases "i < length d")
    case False
    then show ?thesis by (auto simp: findMatchingTextLayer_lazy_loop.simps [of d _ i])
  next
    case True
    show ?thesis
    proof (cases "replace_WHITESPACE (d ! i) = replace_WHITESPACE t")
      case hit: True
      have "findMatchingTextLayer_lazy_loop d (Some t) i = Inr (int i)"
        using True hit by (simp add: findMatchingTextLayer_lazy_loop.simps [of d _ i])
      with True hit show ?thesis by auto
    next
      case miss: False
      have step: "findMatchingTextLayer_lazy_loop d (Some t) i
                    = findMatchingTextLayer_lazy_loop d (Some t) (Suc i)"
        using True miss by (simp add: findMatchingTextLayer_lazy_loop.simps [of d _ i])
      from "1.hyps" [OF True refl miss]
      show ?thesis
      proof (elim disjE conjE exE)
        assume r: "findMatchingTextLayer_lazy_loop d (Some t) (Suc i) = Inr (- 1)"
          and n: "\<forall>j. Suc i \<le> j \<and> j < length d
                    \<longrightarrow> replace_WHITESPACE (d ! j) \<noteq> replace_WHITESPACE t"
        have "\<forall>j. i \<le> j \<and> j < length d \<longrightarrow> replace_WHITESPACE (d ! j) \<noteq> replace_WHITESPACE t"
        proof (intro allI impI)
          fix j assume j: "i \<le> j \<and> j < length d"
          show "replace_WHITESPACE (d ! j) \<noteq> replace_WHITESPACE t"
          proof (cases "j = i")
            case True then show ?thesis using miss by simp
          next
            case False then show ?thesis using n j by auto
          qed
        qed
        with r step show ?thesis by simp
      next
        fix j
        assume j: "Suc i \<le> j" "j < length d" "replace_WHITESPACE (d ! j) = replace_WHITESPACE t"
          and n: "\<forall>k. Suc i \<le> k \<and> k < j \<longrightarrow> replace_WHITESPACE (d ! k) \<noteq> replace_WHITESPACE t"
          and r: "findMatchingTextLayer_lazy_loop d (Some t) (Suc i) = Inr (int j)"
        have "\<forall>k. i \<le> k \<and> k < j \<longrightarrow> replace_WHITESPACE (d ! k) \<noteq> replace_WHITESPACE t"
        proof (intro allI impI)
          fix k assume k: "i \<le> k \<and> k < j"
          show "replace_WHITESPACE (d ! k) \<noteq> replace_WHITESPACE t"
          proof (cases "k = i")
            case True then show ?thesis using miss by simp
          next
            case False then show ?thesis using n k by auto
          qed
        qed
        with j r step show ?thesis by (intro disjI2 exI [of _ j]) auto
      qed
    qed
  qed
qed

text \<open>The search of the earlier script on the document being edited finds the candidate the
  pool of the current script yields, as long as no layer already written has the text
  searched for.\<close>

lemma findMatchingTextLayer_lazy_first_free:
  assumes len: "length d = length L"
    and free: "\<forall>e<length L. int e \<notin> set c \<longrightarrow> d ! e = L ! e"
    and claimed: "\<forall>e<length L. int e \<in> set c
                    \<longrightarrow> replace_WHITESPACE (d ! e) \<noteq> replace_WHITESPACE t"
  shows "findMatchingTextLayer_lazy d (Some t) = Inr (first_free L c (replace_WHITESPACE t))"
proof -
  let ?key = "replace_WHITESPACE t"
  from findMatchingTextLayer_lazy_loop_cases [of d t 0]
  have lz: "(findMatchingTextLayer_lazy d (Some t) = Inr (- 1)
               \<and> (\<forall>j<length d. replace_WHITESPACE (d ! j) \<noteq> ?key))
          \<or> (\<exists>j<length d. replace_WHITESPACE (d ! j) = ?key
                \<and> (\<forall>k<j. replace_WHITESPACE (d ! k) \<noteq> ?key)
                \<and> findMatchingTextLayer_lazy d (Some t) = Inr (int j))"
    by (simp add: findMatchingTextLayer_lazy_def)
  from first_free_cases [of L c ?key] show ?thesis
  proof (elim disjE conjE exE)
    assume ff: "first_free L c ?key = - 1"
      and none: "\<forall>e<length L. int e \<notin> set c \<longrightarrow> replace_WHITESPACE (L ! e) \<noteq> ?key"
    have nomatch: "replace_WHITESPACE (d ! j) \<noteq> ?key" if "j < length d" for j
    proof (cases "int j \<in> set c")
      case True
      with claimed that len show ?thesis by simp
    next
      case False
      with free none that len show ?thesis by simp
    qed
    from lz show ?thesis
    proof (elim disjE conjE exE)
      assume "findMatchingTextLayer_lazy d (Some t) = Inr (- 1)"
      with ff show ?thesis by simp
    next
      fix j assume "j < length d" "replace_WHITESPACE (d ! j) = ?key"
      with nomatch [of j] show ?thesis by simp
    qed
  next
    fix e
    assume e: "e < length L" "first_free L c ?key = int e" "int e \<notin> set c"
      "replace_WHITESPACE (L ! e) = ?key"
      and least: "\<forall>e'<e. int e' \<notin> set c \<longrightarrow> replace_WHITESPACE (L ! e') \<noteq> ?key"
    have de: "replace_WHITESPACE (d ! e) = ?key" using free e by simp
    from lz show ?thesis
    proof (elim disjE conjE exE)
      assume "\<forall>j<length d. replace_WHITESPACE (d ! j) \<noteq> ?key"
      with de e(1) len show ?thesis by simp
    next
      fix j
      assume j: "j < length d" "replace_WHITESPACE (d ! j) = ?key"
        "\<forall>k<j. replace_WHITESPACE (d ! k) \<noteq> ?key"
        and r: "findMatchingTextLayer_lazy d (Some t) = Inr (int j)"
      have jfree: "int j \<notin> set c"
        using claimed j(1,2) len by auto
      then have "replace_WHITESPACE (L ! j) = ?key"
        using free j(1,2) len by simp
      with least jfree have "\<not> j < e" by blast
      moreover have "\<not> e < j" using j(3) de by blast
      ultimately have "j = e" by simp
      with r e(2) show ?thesis by simp
    qed
  qed
qed

lemma generateLocalizedFiles_lazy_rows_first_variant:
  assumes len: "length d = length L"
    and free: "\<forall>e<length L. int e \<notin> set c \<longrightarrow> d ! e = L ! e"
    and claimed: "\<forall>e<length L. int e \<in> set c \<longrightarrow>
                    (\<forall>row \<in> set rows. \<forall>t. row sourceLang = Some t \<longrightarrow>
                       replace_WHITESPACE (d ! e) \<noteq> replace_WHITESPACE t)"
    and cells: "\<forall>row \<in> set rows. \<exists>u. row currentLang = Some u"
    and noclash: "\<forall>j k. j < k \<and> k < length rows \<longrightarrow>
                    (\<forall>u t. (rows ! j) currentLang = Some u \<and> (rows ! k) sourceLang = Some t
                       \<longrightarrow> replace_WHITESPACE u \<noteq> replace_WHITESPACE t)"
    and eager: "mapTextLayers_rows rows sourceLang (pool_texts L c) (pool_indices L c) c mt
                  = Inr (tlm, mt')"
  shows "\<exists>d'. generateLocalizedFiles_lazy_rows hostUndefined rows (length c) sourceLang
                 currentLang c d = Inr (tlm, d')
              \<and> generateLocalizedFiles_rows hostUndefined rows (drop (length c) tlm)
                  currentLang d = Inr d'"
  using len free claimed cells noclash eager
proof (induction rows arbitrary: c d mt)
  case Nil
  then show ?case by simp
next
  case (Cons row rows)
  from Cons.prems(6) obtain t where t: "row sourceLang = Some t"
    by (cases "row sourceLang") auto
  from Cons.prems(4) obtain u where u: "row currentLang = Some u" by auto
  let ?m = "first_free L c (replace_WHITESPACE t)"
  let ?c = "c @ [?m]"
  have eager': "mapTextLayers_rows rows sourceLang (pool_texts L ?c) (pool_indices L ?c) ?c
                  (if ?m = - 1 then mt @ [t] else mt) = Inr (tlm, mt')"
    using Cons.prems(6) t by (simp add: findMatchingTextLayer_pool)
  from mapTextLayers_rows_pool [OF eager'] obtain ms where ms: "tlm = ?c @ ms" by blast
  have dr: "drop (length c) tlm = ?m # drop (length ?c) tlm"
    using ms by simp
  have "\<forall>e<length L. int e \<in> set c
          \<longrightarrow> replace_WHITESPACE (d ! e) \<noteq> replace_WHITESPACE t"
    using Cons.prems(3) t by auto
  from findMatchingTextLayer_lazy_first_free [OF Cons.prems(1) Cons.prems(2) this]
  have find: "findMatchingTextLayer_lazy d (row sourceLang) = Inr ?m"
    using t by simp
  have cells': "\<forall>row \<in> set rows. \<exists>u. row currentLang = Some u"
    using Cons.prems(4) by simp
  have noclash': "\<forall>j k. j < k \<and> k < length rows \<longrightarrow>
                    (\<forall>u t. (rows ! j) currentLang = Some u \<and> (rows ! k) sourceLang = Some t
                       \<longrightarrow> replace_WHITESPACE u \<noteq> replace_WHITESPACE t)"
  proof (intro allI impI)
    fix j k u' t'
    assume jk: "j < k \<and> k < length rows"
      and c: "(rows ! j) currentLang = Some u' \<and> (rows ! k) sourceLang = Some t'"
    from Cons.prems(5) [rule_format, of "Suc j" "Suc k" u' t'] jk c
    show "replace_WHITESPACE u' \<noteq> replace_WHITESPACE t'" by simp
  qed
  have written: "replace_WHITESPACE u \<noteq> replace_WHITESPACE t'"
    if "r \<in> set rows" "r sourceLang = Some t'" for r t'
  proof -
    from that(1) obtain k where k: "k < length rows" "rows ! k = r"
      by (auto simp: in_set_conv_nth)
    from Cons.prems(5) [rule_format, of 0 "Suc k" u t'] k u that(2)
    show ?thesis by simp
  qed
  show ?case
  proof (cases "?m = - 1")
    case True
    have free': "\<forall>e<length L. int e \<notin> set ?c \<longrightarrow> d ! e = L ! e"
      using Cons.prems(2) by simp
    have claimed': "\<forall>e<length L. int e \<in> set ?c \<longrightarrow>
                    (\<forall>row \<in> set rows. \<forall>t. row sourceLang = Some t \<longrightarrow>
                       replace_WHITESPACE (d ! e) \<noteq> replace_WHITESPACE t)"
      using Cons.prems(3) True by auto
    from Cons.IH [OF Cons.prems(1) free' claimed' cells' noclash' eager']
    obtain d' where d': "generateLocalizedFiles_lazy_rows hostUndefined rows (length ?c) sourceLang
                 currentLang ?c d = Inr (tlm, d')"
      "generateLocalizedFiles_rows hostUndefined rows (drop (length ?c) tlm) currentLang d = Inr d'"
      by blast
    have "generateLocalizedFiles_lazy_rows hostUndefined (row # rows) (length c) sourceLang
            currentLang c d = Inr (tlm, d')"
      using find True d'(1) by simp
    moreover have "generateLocalizedFiles_rows hostUndefined (row # rows) (drop (length c) tlm)
                     currentLang d = Inr d'"
      unfolding dr using True d'(2) by simp
    ultimately show ?thesis by blast
  next
    case False
    from first_free_cases [of L c "replace_WHITESPACE t"] False
    obtain e where e: "e < length L" "?m = int e" "int e \<notin> set c"
      by auto
    let ?d = "d[e := u]"
    have set: "setLayerText hostUndefined d ?m (row currentLang) = Inr ?d"
      using e u Cons.prems(1) by (simp add: setLayerText_def)
    have len': "length ?d = length L" using Cons.prems(1) by simp
    have free': "\<forall>e'<length L. int e' \<notin> set ?c \<longrightarrow> ?d ! e' = L ! e'"
      using Cons.prems(2) e by auto
    have claimed': "\<forall>e'<length L. int e' \<in> set ?c \<longrightarrow>
                    (\<forall>row \<in> set rows. \<forall>t. row sourceLang = Some t \<longrightarrow>
                       replace_WHITESPACE (?d ! e') \<noteq> replace_WHITESPACE t)"
    proof (intro allI impI ballI)
      fix e' r t'
      assume e': "e' < length L" "int e' \<in> set ?c" and r: "r \<in> set rows" "r sourceLang = Some t'"
      show "replace_WHITESPACE (?d ! e') \<noteq> replace_WHITESPACE t'"
      proof (cases "e' = e")
        case True
        then have "?d ! e' = u" using e(1) Cons.prems(1) by simp
        with written [OF r] show ?thesis by simp
      next
        case False
        then have "int e' \<in> set c" using e' e(2) by auto
        moreover have "?d ! e' = d ! e'" using False by simp
        ultimately show ?thesis using Cons.prems(3) e'(1) r by auto
      qed
    qed
    from Cons.IH [OF len' free' claimed' cells' noclash' eager']
    obtain d' where d': "generateLocalizedFiles_lazy_rows hostUndefined rows (length ?c) sourceLang
                 currentLang ?c ?d = Inr (tlm, d')"
      "generateLocalizedFiles_rows hostUndefined rows (drop (length ?c) tlm) currentLang ?d = Inr d'"
      by blast
    have "generateLocalizedFiles_lazy_rows hostUndefined (row # rows) (length c) sourceLang
            currentLang c d = Inr (tlm, d')"
      using find False set d'(1) by simp
    moreover have "generateLocalizedFiles_rows hostUndefined (row # rows) (drop (length c) tlm)
                     currentLang d = Inr d'"
      unfolding dr using False set d'(2) by simp
    ultimately show ?thesis by blast
  qed
qed

text \<open>Once the map is complete, the earlier row loop is the current one.\<close>

lemma generateLocalizedFiles_lazy_rows_later_variant:
  "dataRow + length rows \<le> length dataLayerIndices \<Longrightarrow>
   generateLocalizedFiles_lazy_rows hostUndefined rows dataRow sourceLang currentLang
       dataLayerIndices d
     = (case generateLocalizedFiles_rows hostUndefined rows (drop dataRow dataLayerIndices)
              currentLang d of
          Inl e \<Rightarrow> Inl e
        | Inr d' \<Rightarrow> Inr (dataLayerIndices, d'))"
proof (induction rows arbitrary: dataRow d)
  case Nil
  then show ?case by simp
next
  case (Cons row rows)
  from Cons.prems have lt: "dataRow < length dataLayerIndices" by simp
  then have dr: "drop dataRow dataLayerIndices
                   = dataLayerIndices ! dataRow # drop (Suc dataRow) dataLayerIndices"
    by (simp add: Cons_nth_drop_Suc)
  from Cons.prems have le: "Suc dataRow + length rows \<le> length dataLayerIndices" by simp
  show ?case
    unfolding dr using lt Cons.IH [OF le]
    by (simp add: Let_def split: sum.splits)
qed

lemma generateLocalizedFiles_lazy_langs_complete:
  "length worksheetData \<le> length textLayerMap \<Longrightarrow>
   generateLocalizedFiles_lazy_langs hostUndefined fs ccFile sourceLang langs worksheetData
       textLayerMap
     = (fst (generateLocalizedFiles_langs hostUndefined fs ccFile langs worksheetData textLayerMap),
        textLayerMap,
        snd (generateLocalizedFiles_langs hostUndefined fs ccFile langs worksheetData textLayerMap))"
proof (induction langs arbitrary: fs)
  case Nil
  then show ?case by simp
next
  case (Cons currentLang langs)
  have r: "generateLocalizedFiles_lazy_rows hostUndefined worksheetData 0 sourceLang currentLang
             textLayerMap d
           = (case generateLocalizedFiles_rows hostUndefined worksheetData textLayerMap
                     currentLang d of
                Inl e \<Rightarrow> Inl e
              | Inr d' \<Rightarrow> Inr (textLayerMap, d'))" for d
    using generateLocalizedFiles_lazy_rows_later_variant
            [of 0 worksheetData textLayerMap hostUndefined sourceLang currentLang d] Cons.prems
    by simp
  show ?case
    using Cons.IH [OF Cons.prems]
    by (simp add: Let_def r split: sum.splits)
qed

lemma generateLocalizedFiles_lazy_langs_first:
  assumes src: "fs (fullName ccFile) = Some L"
    and m: "mapTextLayers_match L worksheetData sourceLang = Inr (textLayerMap, mt)"
    and cells: "\<forall>row \<in> set worksheetData. \<exists>u. row firstLang = Some u"
    and noclash: "\<forall>j k. j < k \<and> k < length worksheetData \<longrightarrow>
                    (\<forall>u t. (worksheetData ! j) firstLang = Some u
                            \<and> (worksheetData ! k) sourceLang = Some t
                       \<longrightarrow> replace_WHITESPACE u \<noteq> replace_WHITESPACE t)"
  shows "generateLocalizedFiles_lazy_langs hostUndefined fs ccFile sourceLang (firstLang # langs)
           worksheetData []
         = (fst (generateLocalizedFiles_langs hostUndefined fs ccFile (firstLang # langs)
                   worksheetData textLayerMap),
            textLayerMap,
            snd (generateLocalizedFiles_langs hostUndefined fs ccFile (firstLang # langs)
                   worksheetData textLayerMap))"
proof -
  let ?tgt = "path ccFile @ ''/'' @ generateTargetFilename (name ccFile) firstLang"
  let ?fs1 = "file_copy fs (fullName ccFile) ?tgt"
  have op: "app_open ?fs1 ?tgt = Inr L"
    using src by (simp add: file_copy_def app_open_def)
  have len: "length worksheetData \<le> length textLayerMap"
    using mapTextLayers_match_nth(1) [OF m] by simp
  have eager: "mapTextLayers_rows worksheetData sourceLang (pool_texts L []) (pool_indices L [])
                 [] [] = Inr (textLayerMap, mt)"
    using m by (simp add: mapTextLayers_match_pool)
  have "\<exists>d'. generateLocalizedFiles_lazy_rows hostUndefined worksheetData (length ([] :: int list))
                 sourceLang firstLang [] L = Inr (textLayerMap, d')
              \<and> generateLocalizedFiles_rows hostUndefined worksheetData
                  (drop (length ([] :: int list)) textLayerMap) firstLang L = Inr d'"
    by (rule generateLocalizedFiles_lazy_rows_first_variant [OF _ _ _ cells noclash eager]) simp_all
  then obtain d' where
    lz: "generateLocalizedFiles_lazy_rows hostUndefined worksheetData 0 sourceLang firstLang [] L
           = Inr (textLayerMap, d')"
    and eg: "generateLocalizedFiles_rows hostUndefined worksheetData textLayerMap firstLang L
           = Inr d'"
    by auto
  show ?thesis
    using op lz eg
      generateLocalizedFiles_lazy_langs_complete
        [OF len, of hostUndefined "doc_save ?fs1 ?tgt d'" ccFile sourceLang langs]
    by (simp add: Let_def)
qed

text \<open>
  Claim C9, as amended. Let \<open>mapTextLayers\<close> return a map (the source cells exist and the
  user confirms), let there be a first target language in which every row has a cell,
  and let no row's text in that language be equal, after whitespace removal, to the
  source text of a later row. Then the map the earlier script builds while it writes the
  first variant is the map of \<open>mapTextLayers\<close>, and the earlier script ends with the same
  error, if any, and the same store as \<open>generateLocalizedFiles\<close> of the current script run
  on that map: the variants hold the same layer texts.
\<close>

theorem generateLocalizedFiles_lazy_eq_eager:
  assumes eager: "mapTextLayers fs confirm ccFile worksheetData (source selectedLanguages)
                    = Inr (Some textLayerMap)"
    and tgt: "target selectedLanguages = firstLang # langs"
    and cells: "\<forall>row \<in> set worksheetData. \<exists>u. row firstLang = Some u"
    and noclash: "\<forall>j k. j < k \<and> k < length worksheetData \<longrightarrow>
                    (\<forall>u t. (worksheetData ! j) firstLang = Some u
                            \<and> (worksheetData ! k) (source selectedLanguages) = Some t
                       \<longrightarrow> replace_WHITESPACE u \<noteq> replace_WHITESPACE t)"
  shows "fst (snd (generateLocalizedFiles_lazy_langs hostUndefined fs ccFile
                     (source selectedLanguages) [firstLang] worksheetData [])) = textLayerMap
       \<and> generateLocalizedFiles_lazy hostUndefined fs ccFile selectedLanguages worksheetData
           = (fst (generateLocalizedFiles hostUndefined fs ccFile selectedLanguages worksheetData
                     textLayerMap),
              textLayerMap,
              snd (generateLocalizedFiles hostUndefined fs ccFile selectedLanguages worksheetData
                     textLayerMap))"
proof -
  from mapTextLayers_match_of_mapTextLayers [OF eager] obtain L mt
    where src: "fs (fullName ccFile) = Some L"
      and m: "mapTextLayers_match L worksheetData (source selectedLanguages)
                = Inr (textLayerMap, mt)"
    by blast
  note first = generateLocalizedFiles_lazy_langs_first
                 [where fs = fs and ccFile = ccFile and hostUndefined = hostUndefined,
                  OF src m cells noclash]
  have "fst (snd (generateLocalizedFiles_lazy_langs hostUndefined fs ccFile
                     (source selectedLanguages) [firstLang] worksheetData [])) = textLayerMap"
    unfolding first [where langs = "[]"] by simp
  moreover have "generateLocalizedFiles_lazy hostUndefined fs ccFile selectedLanguages worksheetData
           = (fst (generateLocalizedFiles hostUndefined fs ccFile selectedLanguages worksheetData
                     textLayerMap),
              textLayerMap,
              snd (generateLocalizedFiles hostUndefined fs ccFile selectedLanguages worksheetData
                     textLayerMap))"
    unfolding generateLocalizedFiles_lazy_def generateLocalizedFiles_def tgt
    by (rule first)
  ultimately show ?thesis by simp
qed

theorem generateLocalizedFiles_lazy_eq_eager_witness:
  "mapTextLayers [''/work/poster.psd'' \<mapsto> [''Hello'', ''Bye '']] (\<lambda>missingText. True)
       \<lparr>path = ''/work'', name = ''poster.psd''\<rparr>
       [[''en'' \<mapsto> ''Hello'', ''fr'' \<mapsto> ''Bonjour''], [''en'' \<mapsto> ''Bye'', ''fr'' \<mapsto> ''Au revoir'']]
       (source \<lparr>source = ''en'', target = [''fr'']\<rparr>)
     = Inr (Some [0, 1])
   \<and> target \<lparr>source = ''en'', target = [''fr'']\<rparr> = ''fr'' # []
   \<and> replace_WHITESPACE ''Bonjour'' \<noteq> replace_WHITESPACE ''Bye''
   \<and> fst (snd (generateLocalizedFiles_lazy (Inl HostError)
          [''/work/poster.psd'' \<mapsto> [''Hello'', ''Bye '']]
          \<lparr>path = ''/work'', name = ''poster.psd''\<rparr> \<lparr>source = ''en'', target = [''fr'']\<rparr>
          [[''en'' \<mapsto> ''Hello'', ''fr'' \<mapsto> ''Bonjour''], [''en'' \<mapsto> ''Bye'', ''fr'' \<mapsto> ''Au revoir'']]))
     = [0, 1]
   \<and> snd (snd (generateLocalizedFiles_lazy (Inl HostError)
          [''/work/poster.psd'' \<mapsto> [''Hello'', ''Bye '']]
          \<lparr>path = ''/work'', name = ''poster.psd''\<rparr> \<lparr>source = ''en'', target = [''fr'']\<rparr>
          [[''en'' \<mapsto> ''Hello'', ''fr'' \<mapsto> ''Bonjour''], [''en'' \<mapsto> ''Bye'', ''fr'' \<mapsto> ''Au revoir'']]))
       ''/work/poster_fr.psd''
     = snd (generateLocalizedFiles (Inl HostError)
          [''/work/poster.psd'' \<mapsto> [''Hello'', ''Bye '']]
          \<lparr>path = ''/work'', name = ''poster.psd''\<rparr> \<lparr>source = ''en'', target = [''fr'']\<rparr>
          [[''en'' \<mapsto> ''Hello'', ''fr'' \<mapsto> ''Bonjour''], [''en'' \<mapsto> ''Bye'', ''fr'' \<mapsto> ''Au revoir'']]
          [0, 1]) ''/work/poster_fr.psd''
   \<and> snd (generateLocalizedFiles (Inl HostError)
          [''/work/poster.psd'' \<mapsto> [''Hello'', ''Bye '']]
          \<lparr>path = ''/work'', name = ''poster.psd''\<rparr> \<lparr>source = ''en'', target = [''fr'']\<rparr>
          [[''en'' \<mapsto> ''Hello'', ''fr'' \<mapsto> ''Bonjour''], [''en'' \<mapsto> ''Bye'', ''fr'' \<mapsto> ''Au revoir'']]
          [0, 1]) ''/work/poster_fr.psd''
     = Some [''Bonjour'', ''Au revoir'']"
proof -
  let ?rows = "[[''en'' \<mapsto> ''Hello'', ''fr'' \<mapsto> ''Bonjour''],
                [''en'' \<mapsto> ''Bye'', ''fr'' \<mapsto> ''Au revoir'']] :: row list"
  let ?cc = "\<lparr>path = ''/work'', name = ''poster.psd''\<rparr>"
  let ?sel = "\<lparr>source = ''en'', target = [''fr'']\<rparr>"
  let ?fs = "[''/work/poster.psd'' \<mapsto> [''Hello'', ''Bye '']]"
  have e: "mapTextLayers ?fs (\<lambda>missingText. True) ?cc ?rows (source ?sel) = Inr (Some [0, 1])"
    by code_simp
  have t: "target ?sel = ''fr'' # []" by simp
  have c: "\<forall>row \<in> set ?rows. \<exists>u. row ''fr'' = Some u" by simp
  have ne: "replace_WHITESPACE ''Bonjour'' \<noteq> replace_WHITESPACE ''Bye''" by code_simp
  have n: "\<forall>j k. j < k \<and> k < length ?rows \<longrightarrow>
             (\<forall>u t. (?rows ! j) ''fr'' = Some u \<and> (?rows ! k) (source ?sel) = Some t
                \<longrightarrow> replace_WHITESPACE u \<noteq> replace_WHITESPACE t)"
  proof (intro allI impI)
    fix j k u t
    assume jk: "j < k \<and> k < length ?rows"
      and ut: "(?rows ! j) ''fr'' = Some u \<and> (?rows ! k) (source ?sel) = Some t"
    from jk have "j = 0 \<and> k = 1" by auto
    with ut have "u = ''Bonjour''" "t = ''Bye''" by simp_all
    with ne show "replace_WHITESPACE u \<noteq> replace_WHITESPACE t" by simp
  qed
  note w = generateLocalizedFiles_lazy_eq_eager [OF e t c n, of "Inl HostError"]
  from w have a: "fst (snd (generateLocalizedFiles_lazy (Inl HostError) ?fs ?cc ?sel ?rows)) = [0, 1]"
    by simp
  from w have b: "snd (snd (generateLocalizedFiles_lazy (Inl HostError) ?fs ?cc ?sel ?rows))
                    ''/work/poster_fr.psd''
                  = snd (generateLocalizedFiles (Inl HostError) ?fs ?cc ?sel ?rows [0, 1])
                      ''/work/poster_fr.psd''"
    by simp
  have v: "snd (generateLocalizedFiles (Inl HostError) ?fs ?cc ?sel ?rows [0, 1])
             ''/work/poster_fr.psd'' = Some [''Bonjour'', ''Au revoir'']"
    by code_simp
  from e t ne a b v show ?thesis by (intro conjI)
qed

text \<open>
  Claim C9 as stated fails. On one layer \<open>A\<close> and the rows \<open>{en: A, fr: B}\<close>,
  \<open>{en: B, fr: C}\<close>, the current script maps the rows to \<open>[0, -1]\<close> and writes \<open>B\<close>; the
  earlier script finds, for the second row, the layer it has just overwritten with \<open>B\<close>,
  maps the rows to \<open>[0, 0]\<close> and leaves \<open>C\<close>. And on one layer \<open>A\<close> and the row
  \<open>{en: Z, fr: Y}\<close>, when the user declines to proceed with a missing row, the current
  script writes no variant, while the earlier script, which never asks, writes one.
\<close>

theorem generateLocalizedFiles_lazy_eager_counterexample:
  "mapTextLayers [''/work/a.psd'' \<mapsto> [''A'']] (\<lambda>missingText. True)
       \<lparr>path = ''/work'', name = ''a.psd''\<rparr>
       [[''en'' \<mapsto> ''A'', ''fr'' \<mapsto> ''B''], [''en'' \<mapsto> ''B'', ''fr'' \<mapsto> ''C'']] ''en''
     = Inr (Some [0, - 1])
   \<and> fst (snd (generateLocalizedFiles_lazy (Inl HostError) [''/work/a.psd'' \<mapsto> [''A'']]
          \<lparr>path = ''/work'', name = ''a.psd''\<rparr> \<lparr>source = ''en'', target = [''fr'']\<rparr>
          [[''en'' \<mapsto> ''A'', ''fr'' \<mapsto> ''B''], [''en'' \<mapsto> ''B'', ''fr'' \<mapsto> ''C'']]))
     = [0, 0]
   \<and> generateLocalizedFiles (Inl HostError) [''/work/a.psd'' \<mapsto> [''A'']]
          \<lparr>path = ''/work'', name = ''a.psd''\<rparr> \<lparr>source = ''en'', target = [''fr'']\<rparr>
          [[''en'' \<mapsto> ''A'', ''fr'' \<mapsto> ''B''], [''en'' \<mapsto> ''B'', ''fr'' \<mapsto> ''C'']] [0, - 1]
     = (None, [''/work/a.psd'' \<mapsto> [''A''], ''/work/a_fr.psd'' \<mapsto> [''B'']])
   \<and> generateLocalizedFiles_lazy (Inl HostError) [''/work/a.psd'' \<mapsto> [''A'']]
          \<lparr>path = ''/work'', name = ''a.psd''\<rparr> \<lparr>source = ''en'', target = [''fr'']\<rparr>
          [[''en'' \<mapsto> ''A'', ''fr'' \<mapsto> ''B''], [''en'' \<mapsto> ''B'', ''fr'' \<mapsto> ''C'']]
     = (None, [0, 0], [''/work/a.psd'' \<mapsto> [''A''], ''/work/a_fr.psd'' \<mapsto> [''C'']])
   \<and> [0, - 1] \<noteq> [0, 0 :: int]
   \<and> [''/work/a.psd'' \<mapsto> [''A''], ''/work/a_fr.psd'' \<mapsto> [''B'']] ''/work/a_fr.psd''
       \<noteq> [''/work/a.psd'' \<mapsto> [''A''], ''/work/a_fr.psd'' \<mapsto> [''C'']] ''/work/a_fr.psd''
   \<and> mapTextLayers [''/work/a.psd'' \<mapsto> [''A'']] (\<lambda>missingText. False)
       \<lparr>path = ''/work'', name = ''a.psd''\<rparr> [[''en'' \<mapsto> ''Z'', ''fr'' \<mapsto> ''Y'']] ''en''
     = Inr None
   \<and> main_localize (Inl HostError) [''/work/a.psd'' \<mapsto> [''A'']] (\<lambda>missingText. False)
       \<lparr>path = ''/work'', name = ''a.psd''\<rparr> \<lparr>source = ''en'', target = [''fr'']\<rparr>
       [[''en'' \<mapsto> ''Z'', ''fr'' \<mapsto> ''Y'']] ''/work/a_fr.psd''
     = None
   \<and> snd (snd (generateLocalizedFiles_lazy (Inl HostError) [''/work/a.psd'' \<mapsto> [''A'']]
          \<lparr>path = ''/work'', name = ''a.psd''\<rparr> \<lparr>source = ''en'', target = [''fr'']\<rparr>
          [[''en'' \<mapsto> ''Z'', ''fr'' \<mapsto> ''Y'']])) ''/work/a_fr.psd''
     = Some [''A'']"
proof (intro conjI)
  show "mapTextLayers [''/work/a.psd'' \<mapsto> [''A'']] (\<lambda>missingText. False)
       \<lparr>path = ''/work'', name = ''a.psd''\<rparr> [[''en'' \<mapsto> ''Z'', ''fr'' \<mapsto> ''Y'']] ''en''
     = Inr None"
    by code_simp
  show "main_localize (Inl HostError) [''/work/a.psd'' \<mapsto> [''A'']] (\<lambda>missingText. False)
       \<lparr>path = ''/work'', name = ''a.psd''\<rparr> \<lparr>source = ''en'', target = [''fr'']\<rparr>
       [[''en'' \<mapsto> ''Z'', ''fr'' \<mapsto> ''Y'']] ''/work/a_fr.psd''
     = None"
    by code_simp
  show "snd (snd (generateLocalizedFiles_lazy (Inl HostError) [''/work/a.psd'' \<mapsto> [''A'']]
          \<lparr>path = ''/work'', name = ''a.psd''\<rparr> \<lparr>source = ''en'', target = [''fr'']\<rparr>
          [[''en'' \<mapsto> ''Z'', ''fr'' \<mapsto> ''Y'']])) ''/work/a_fr.psd''
     = Some [''A'']"
    by code_simp
next
  show "mapTextLayers [''/work/a.psd'' \<mapsto> [''A'']] (\<lambda>missingText. True)
       \<lparr>path = ''/work'', name = ''a.psd''\<rparr>
       [[''en'' \<mapsto> ''A'', ''fr'' \<mapsto> ''B''], [''en'' \<mapsto> ''B'', ''fr'' \<mapsto> ''C'']] ''en''
     = Inr (Some [0, - 1])"
    by code_simp
  have g: "generateTargetFilename ''a.psd'' ''fr'' = ''a_fr.psd''"
    by (simp add: generateTargetFilename_def)
  have s: "replace_WHITESPACE ''A'' = ''A''" "replace_WHITESPACE ''B'' = ''B''"
    by (simp_all add: replace_WHITESPACE_def WHITESPACE_REGEX_def)
  show lz: "generateLocalizedFiles_lazy (Inl HostError) [''/work/a.psd'' \<mapsto> [''A'']]
          \<lparr>path = ''/work'', name = ''a.psd''\<rparr> \<lparr>source = ''en'', target = [''fr'']\<rparr>
          [[''en'' \<mapsto> ''A'', ''fr'' \<mapsto> ''B''], [''en'' \<mapsto> ''B'', ''fr'' \<mapsto> ''C'']]
     = (None, [0, 0], [''/work/a.psd'' \<mapsto> [''A''], ''/work/a_fr.psd'' \<mapsto> [''C'']])"
    by (simp add: generateLocalizedFiles_lazy_def g s fullName_def file_copy_def app_open_def
          doc_save_def findMatchingTextLayer_lazy_def
          findMatchingTextLayer_lazy_loop.simps [of _ _ 0] setLayerText_def)
  show "fst (snd (generateLocalizedFiles_lazy (Inl HostError) [''/work/a.psd'' \<mapsto> [''A'']]
          \<lparr>path = ''/work'', name = ''a.psd''\<rparr> \<lparr>source = ''en'', target = [''fr'']\<rparr>
          [[''en'' \<mapsto> ''A'', ''fr'' \<mapsto> ''B''], [''en'' \<mapsto> ''B'', ''fr'' \<mapsto> ''C'']]))
     = [0, 0]"
    unfolding lz by simp
  show "generateLocalizedFiles (Inl HostError) [''/work/a.psd'' \<mapsto> [''A'']]
          \<lparr>path = ''/work'', name = ''a.psd''\<rparr> \<lparr>source = ''en'', target = [''fr'']\<rparr>
          [[''en'' \<mapsto> ''A'', ''fr'' \<mapsto> ''B''], [''en'' \<mapsto> ''B'', ''fr'' \<mapsto> ''C'']] [0, - 1]
     = (None, [''/work/a.psd'' \<mapsto> [''A''], ''/work/a_fr.psd'' \<mapsto> [''B'']])"
    by (simp add: generateLocalizedFiles_def g fullName_def file_copy_def app_open_def
          doc_save_def setLayerText_def)
  show "[0, - 1] \<noteq> [0, 0 :: int]" by simp
  show "[''/work/a.psd'' \<mapsto> [''A''], ''/work/a_fr.psd'' \<mapsto> [''B'']] ''/work/a_fr.psd''
       \<noteq> [''/work/a.psd'' \<mapsto> [''A''], ''/work/a_fr.psd'' \<mapsto> [''C'']] ''/work/a_fr.psd''"
    by simp
qed

end
